theory Spec2Isabelle
  imports Main "HOL-Library.Sublist"
begin

section \<open>Python values\<close>

text \<open>
  The adapter of \<^verbatim>\<open>logging_webhook_adapter.py\<close> receives arbitrary Python values from its
  host. The values modelled here are \<^verbatim>\<open>None\<close>, booleans, integers, strings, lists,
  dictionaries and opaque objects. Lists and dictionaries are mutable objects with an
  identity: they live in a store and a value refers to them by address, so that a container
  can contain itself. A string is a list of characters, each standing for one code point
  below 256. Floats, tuples, sets and bytes are not modelled.

  An opaque object carries its class name, whether it has a \<^verbatim>\<open>__dict__\<close>, its attributes
  in order, and what its \<^verbatim>\<open>__str__\<close> and \<^verbatim>\<open>__repr__\<close> do: return a string or raise.
  Objects are truthy and not iterable.
\<close>

datatype exn =
    ValueError string
  | TypeError string
  | AttributeError string
  | OtherException string string
  | NonException string string

text \<open>
  \<open>OtherException cls msg\<close> is an instance of any other class derived from
  \<^verbatim>\<open>Exception\<close>; \<open>NonException cls msg\<close> is derived from \<^verbatim>\<open>BaseException\<close> only
  (\<^verbatim>\<open>KeyboardInterrupt\<close>, \<^verbatim>\<open>SystemExit\<close>), which \<^verbatim>\<open>except Exception\<close> does not catch.
\<close>

fun is_Exception :: "exn \<Rightarrow> bool" where
  "is_Exception (NonException _ _) = False"
| "is_Exception _ = True"

type_synonym addr = nat

datatype pyval =
    PNone
  | PBool bool
  | PInt int
  | PStr string
  | PRef addr
  | PObj (obj_class: string) (obj_has_dict: bool) (obj_attrs: "(string \<times> pyval) list")
         (obj_str: "exn + string") (obj_repr: "exn + string")

datatype container =
    CList "pyval list"
  | CDict "(pyval \<times> pyval) list"

type_synonym heap = "container list"

definition cell :: "heap \<Rightarrow> addr \<Rightarrow> container option" where
  "cell H a = (if a < length H then Some (H ! a) else None)"

text \<open>
  What a traversal of a value sees: a finite tree in which a container that is already
  being traversed appears as a leaf \<open>TCycle\<close>. Both \<^verbatim>\<open>repr\<close> (through
  \<^verbatim>\<open>Py_ReprEnter\<close>) and \<^verbatim>\<open>json.dumps\<close> (through its \<^verbatim>\<open>markers\<close>) keep exactly the
  containers on the current path. An address outside the store has no counterpart in
  Python and reads as \<^verbatim>\<open>None\<close>.
\<close>

datatype kind = KList | KDict

datatype ptree =
    TNone
  | TBool bool
  | TInt int
  | TStr string
  | TList "ptree list"
  | TDict "(ptree \<times> ptree) list"
  | TObj string "exn + string" "exn + string"
  | TCycle kind

function view :: "heap \<Rightarrow> addr list \<Rightarrow> pyval \<Rightarrow> ptree" where
  "view H stk PNone = TNone"
| "view H stk (PBool b) = TBool b"
| "view H stk (PInt i) = TInt i"
| "view H stk (PStr s) = TStr s"
| "view H stk (PObj c d as s r) = TObj c s r"
| "view H stk (PRef a) =
     (if a < length H then
        (case H ! a of
           CList xs \<Rightarrow> if a \<in> set stk then TCycle KList
                       else TList (map (\<lambda>x. view H (a # stk) x) xs)
         | CDict kvs \<Rightarrow> if a \<in> set stk then TCycle KDict
                        else TDict (map (\<lambda>kv. (view H (a # stk) (fst kv),
                                                 view H (a # stk) (snd kv))) kvs))
      else TNone)"
  by pat_completeness auto
termination
proof (relation "measure (\<lambda>(H, stk, v). card ({..<length H} - set stk))")
  show "wf (measure (\<lambda>(H, stk, v). card ({..<length H} - set stk)))"
    by simp
next
  fix H :: heap and stk :: "addr list" and a :: addr and x2 :: "pyval list" and x :: pyval
  assume "a < length H" "a \<notin> set stk"
  then have "card ({..<length H} - set (a # stk)) < card ({..<length H} - set stk)"
    by (intro psubset_card_mono) auto
  then show "((H, a # stk, x), (H, stk, PRef a))
      \<in> measure (\<lambda>(H, stk, v). card ({..<length H} - set stk))"
    by simp
next
  fix H :: heap and stk :: "addr list" and a :: addr and kv :: "pyval \<times> pyval"
  assume "a < length H" "a \<notin> set stk"
  then have "card ({..<length H} - set (a # stk)) < card ({..<length H} - set stk)"
    by (intro psubset_card_mono) auto
  then show "((H, a # stk, fst kv), (H, stk, PRef a))
      \<in> measure (\<lambda>(H, stk, v). card ({..<length H} - set stk))"
    by simp
next
  fix H :: heap and stk :: "addr list" and a :: addr and kv :: "pyval \<times> pyval"
  assume "a < length H" "a \<notin> set stk"
  then have "card ({..<length H} - set (a # stk)) < card ({..<length H} - set stk)"
    by (intro psubset_card_mono) auto
  then show "((H, a # stk, snd kv), (H, stk, PRef a))
      \<in> measure (\<lambda>(H, stk, v). card ({..<length H} - set stk))"
    by simp
qed


section \<open>Text of scalars\<close>

text \<open>Decimal digits of a natural number and of an integer, as \<^verbatim>\<open>int.__repr__\<close> prints.\<close>

definition digit_char :: "nat \<Rightarrow> char" where
  "digit_char n = ''0123456789abcdef'' ! (n mod 16)"

fun show_nat :: "nat \<Rightarrow> string" where
  "show_nat n = (if n < 10 then [digit_char n] else show_nat (n div 10) @ [digit_char (n mod 10)])"

declare show_nat.simps [simp del]

definition show_int :: "int \<Rightarrow> string" where
  "show_int i = (if i < 0 then CHR ''-'' # show_nat (nat (- i)) else show_nat (nat i))"

definition hex2 :: "nat \<Rightarrow> string" where
  "hex2 n = [digit_char (n div 16), digit_char (n mod 16)]"

text \<open>
  \<^verbatim>\<open>repr\<close> of a string: single quotes unless the string has a single quote and no double
  quote; backslash and the chosen quote are escaped, tab, newline and carriage return are
  written as \<^verbatim>\<open>\t \n \r\<close>, and every other non-printable code point as \<^verbatim>\<open>\xNN\<close>.
\<close>

definition printable :: "char \<Rightarrow> bool" where
  "printable c = (let n = (of_char c :: nat) in
     (32 \<le> n \<and> n < 127) \<or> (161 \<le> n \<and> n \<noteq> 173))"

definition repr_char :: "char \<Rightarrow> char \<Rightarrow> string" where
  "repr_char q c =
     (if c = q \<or> c = CHR 0x5C then [CHR 0x5C, c]
      else if c = CHR 0x09 then [CHR 0x5C, CHR ''t'']
      else if c = CHR 0x0A then [CHR 0x5C, CHR ''n'']
      else if c = CHR 0x0D then [CHR 0x5C, CHR ''r'']
      else if printable c then [c]
      else [CHR 0x5C, CHR ''x''] @ hex2 (of_char c))"

definition str_repr :: "string \<Rightarrow> string" where
  "str_repr s =
     (let q = (if CHR 0x27 \<in> set s \<and> CHR 0x22 \<notin> set s then CHR 0x22 else CHR 0x27)
      in q # concat (map (repr_char q) s) @ [q])"

text \<open>
  \<^verbatim>\<open>json.encoder.py_encode_basestring_ascii\<close>: backslash and double quote are escaped,
  the control characters with a short form use it, and everything else outside
  \<^verbatim>\<open>' '..'~'\<close> becomes \<^verbatim>\<open>\u00NN\<close>.
\<close>

definition json_char :: "char \<Rightarrow> string" where
  "json_char c =
     (if c = CHR 0x5C then [CHR 0x5C, CHR 0x5C]
      else if c = CHR 0x22 then [CHR 0x5C, CHR 0x22]
      else if c = CHR 0x08 then [CHR 0x5C, CHR ''b'']
      else if c = CHR 0x0C then [CHR 0x5C, CHR ''f'']
      else if c = CHR 0x0A then [CHR 0x5C, CHR ''n'']
      else if c = CHR 0x0D then [CHR 0x5C, CHR ''r'']
      else if c = CHR 0x09 then [CHR 0x5C, CHR ''t'']
      else if 32 \<le> (of_char c :: nat) \<and> (of_char c :: nat) < 127 then [c]
      else [CHR 0x5C, CHR ''u'', CHR ''0'', CHR ''0''] @ hex2 (of_char c))"

definition json_string :: "string \<Rightarrow> string" where
  "json_string s = CHR 0x22 # concat (map json_char s) @ [CHR 0x22]"

section \<open>\<^verbatim>\<open>repr\<close>, \<^verbatim>\<open>str\<close> and \<^verbatim>\<open>json.dumps\<close>\<close>

text \<open>The first exception raised while the items are converted in order is the one raised.\<close>

fun collect :: "(exn + 'a) list \<Rightarrow> exn + 'a list" where
  "collect [] = Inr []"
| "collect (Inl e # rs) = Inl e"
| "collect (Inr x # rs) = (case collect rs of Inl e \<Rightarrow> Inl e | Inr xs \<Rightarrow> Inr (x # xs))"

fun join :: "string \<Rightarrow> string list \<Rightarrow> string" where
  "join sep [] = []"
| "join sep [x] = x"
| "join sep (x # y # ys) = x @ sep @ join sep (y # ys)"

definition pair_up :: "string \<Rightarrow> (exn + string) \<Rightarrow> (exn + string) \<Rightarrow> exn + string" where
  "pair_up sep k v =
     (case k of Inl e \<Rightarrow> Inl e
      | Inr ks \<Rightarrow> (case v of Inl e \<Rightarrow> Inl e | Inr vs \<Rightarrow> Inr (ks @ sep @ vs)))"

fun tree_repr :: "ptree \<Rightarrow> exn + string" where
  "tree_repr TNone = Inr ''None''"
| "tree_repr (TBool b) = Inr (if b then ''True'' else ''False'')"
| "tree_repr (TInt i) = Inr (show_int i)"
| "tree_repr (TStr s) = Inr (str_repr s)"
| "tree_repr (TObj c s r) = r"
| "tree_repr (TCycle KList) = Inr ''[...]''"
| "tree_repr (TCycle KDict) = Inr ''{...}''"
| "tree_repr (TList xs) =
     (case collect (map tree_repr xs) of
        Inl e \<Rightarrow> Inl e
      | Inr ss \<Rightarrow> Inr (''['' @ join '', '' ss @ '']''))"
| "tree_repr (TDict kvs) =
     (case collect (map (\<lambda>kv. pair_up '': '' (tree_repr (fst kv)) (tree_repr (snd kv))) kvs) of
        Inl e \<Rightarrow> Inl e
      | Inr ss \<Rightarrow> Inr (''{'' @ join '', '' ss @ ''}''))"

fun tree_str :: "ptree \<Rightarrow> exn + string" where
  "tree_str (TStr s) = Inr s"
| "tree_str (TObj c s r) = s"
| "tree_str t = tree_repr t"

definition py_str :: "heap \<Rightarrow> pyval \<Rightarrow> exn + string" where
  "py_str H v = tree_str (view H [] v)"

text \<open>
  \<^verbatim>\<open>json.dumps(data, indent=indent, default=str)\<close>, following \<^verbatim>\<open>_make_iterencode\<close>
  of \<^verbatim>\<open>json/encoder.py\<close>: an integer \<open>indent\<close> selects the item separator \<^verbatim>\<open>','\<close>, the
  key separator \<^verbatim>\<open>': '\<close> and a newline followed by \<open>indent * level\<close> spaces
  (\<^verbatim>\<open>' ' * indent\<close> is empty for a negative \<open>indent\<close>). An empty container is
  \<^verbatim>\<open>[]\<close> or \<^verbatim>\<open>{}\<close>. A container met again on the path raises \<^verbatim>\<open>ValueError\<close>. A
  dictionary key is a string, a boolean, \<^verbatim>\<open>None\<close> or an integer, and anything else
  raises \<^verbatim>\<open>TypeError\<close>. Any other value goes through \<^verbatim>\<open>default=str\<close> and the string
  it returns is encoded.
\<close>

definition newline_indent :: "int \<Rightarrow> nat \<Rightarrow> string" where
  "newline_indent indent level = CHR 0x0A # replicate (nat indent * level) CHR '' ''"

fun json_key :: "ptree \<Rightarrow> exn + string" where
  "json_key (TStr s) = Inr (json_string s)"
| "json_key (TBool b) = Inr (json_string (if b then ''true'' else ''false''))"
| "json_key TNone = Inr (json_string ''null'')"
| "json_key (TInt i) = Inr (json_string (show_int i))"
| "json_key (TObj c s r) =
     Inl (TypeError (''keys must be str, int, float, bool or None, not '' @ c))"
| "json_key (TList xs) =
     Inl (TypeError ''keys must be str, int, float, bool or None, not list'')"
| "json_key (TDict kvs) =
     Inl (TypeError ''keys must be str, int, float, bool or None, not dict'')"
| "json_key (TCycle KList) =
     Inl (TypeError ''keys must be str, int, float, bool or None, not list'')"
| "json_key (TCycle KDict) =
     Inl (TypeError ''keys must be str, int, float, bool or None, not dict'')"

fun json_enc :: "int \<Rightarrow> nat \<Rightarrow> ptree \<Rightarrow> exn + string" where
  "json_enc indent level TNone = Inr ''null''"
| "json_enc indent level (TBool b) = Inr (if b then ''true'' else ''false'')"
| "json_enc indent level (TInt i) = Inr (show_int i)"
| "json_enc indent level (TStr s) = Inr (json_string s)"
| "json_enc indent level (TObj c s r) =
     (case s of Inl e \<Rightarrow> Inl e | Inr t \<Rightarrow> Inr (json_string t))"
| "json_enc indent level (TCycle k) = Inl (ValueError ''Circular reference detected'')"
| "json_enc indent level (TList xs) =
     (if xs = [] then Inr ''[]''
      else case collect (map (json_enc indent (Suc level)) xs) of
        Inl e \<Rightarrow> Inl e
      | Inr ss \<Rightarrow> Inr (''['' @ newline_indent indent (Suc level)
                        @ join ('','' @ newline_indent indent (Suc level)) ss
                        @ newline_indent indent level @ '']''))"
| "json_enc indent level (TDict kvs) =
     (if kvs = [] then Inr ''{}''
      else case collect (map (\<lambda>kv. pair_up '': '' (json_key (fst kv))
                                      (json_enc indent (Suc level) (snd kv))) kvs) of
        Inl e \<Rightarrow> Inl e
      | Inr ss \<Rightarrow> Inr (''{'' @ newline_indent indent (Suc level)
                        @ join ('','' @ newline_indent indent (Suc level)) ss
                        @ newline_indent indent level @ ''}''))"

definition json_dumps :: "heap \<Rightarrow> pyval \<Rightarrow> int \<Rightarrow> exn + string" where
  "json_dumps H v indent = json_enc indent 0 (view H [] v)"


section \<open>Inspecting values\<close>

text \<open>Truthiness, as \<^verbatim>\<open>if x:\<close> tests it.\<close>

fun truthy :: "heap \<Rightarrow> pyval \<Rightarrow> bool" where
  "truthy H PNone = False"
| "truthy H (PBool b) = b"
| "truthy H (PInt i) = (i \<noteq> 0)"
| "truthy H (PStr s) = (s \<noteq> [])"
| "truthy H (PObj c d as s r) = True"
| "truthy H (PRef a) =
     (case cell H a of None \<Rightarrow> False | Some (CList xs) \<Rightarrow> xs \<noteq> [] | Some (CDict kvs) \<Rightarrow> kvs \<noteq> [])"

text \<open>
  \<^verbatim>\<open>isinstance(v, (dict, list))\<close> and \<^verbatim>\<open>isinstance(v, dict)\<close>; \<^verbatim>\<open>isinstance(v, str)\<close> is a
  case distinction on \<open>PStr\<close>.
\<close>

fun is_dict_or_list :: "heap \<Rightarrow> pyval \<Rightarrow> bool" where
  "is_dict_or_list H (PRef a) = (cell H a \<noteq> None)"
| "is_dict_or_list H v = False"

fun is_dict :: "heap \<Rightarrow> pyval \<Rightarrow> bool" where
  "is_dict H (PRef a) = (case cell H a of Some (CDict kvs) \<Rightarrow> True | _ \<Rightarrow> False)"
| "is_dict H v = False"

text \<open>\<^verbatim>\<open>d.items()\<close> of a dictionary, in insertion order.\<close>

fun dict_items :: "heap \<Rightarrow> pyval \<Rightarrow> (pyval \<times> pyval) list" where
  "dict_items H (PRef a) = (case cell H a of Some (CDict kvs) \<Rightarrow> kvs | _ \<Rightarrow> [])"
| "dict_items H v = []"

text \<open>\<^verbatim>\<open>type(v).__name__\<close>.\<close>

fun type_name :: "heap \<Rightarrow> pyval \<Rightarrow> string" where
  "type_name H PNone = ''NoneType''"
| "type_name H (PBool b) = ''bool''"
| "type_name H (PInt i) = ''int''"
| "type_name H (PStr s) = ''str''"
| "type_name H (PObj c d as s r) = c"
| "type_name H (PRef a) =
     (case cell H a of None \<Rightarrow> ''NoneType'' | Some (CList xs) \<Rightarrow> ''list''
      | Some (CDict kvs) \<Rightarrow> ''dict'')"

text \<open>
  Attributes: only opaque objects have the attributes the adapter asks for
  (\<^verbatim>\<open>gateway_id\<close>, \<^verbatim>\<open>session_id\<close>, \<^verbatim>\<open>task_id\<close>, \<^verbatim>\<open>user_id\<close>, \<^verbatim>\<open>text\<close>,
  \<^verbatim>\<open>status\<close>, \<^verbatim>\<open>error\<close>, \<^verbatim>\<open>artifacts\<close>); none of the built-in types has one of them.
\<close>

fun attrs_of :: "pyval \<Rightarrow> (string \<times> pyval) list" where
  "attrs_of (PObj c d as s r) = as"
| "attrs_of v = []"

definition hasattr :: "pyval \<Rightarrow> string \<Rightarrow> bool" where
  "hasattr v name = (map_of (attrs_of v) name \<noteq> None)"

definition getattr :: "pyval \<Rightarrow> string \<Rightarrow> pyval \<Rightarrow> pyval" where
  "getattr v name dflt = (case map_of (attrs_of v) name of None \<Rightarrow> dflt | Some x \<Rightarrow> x)"

text \<open>\<^verbatim>\<open>hasattr(v, '__dict__')\<close> and \<^verbatim>\<open>vars(v).items()\<close>.\<close>

fun has_dict :: "pyval \<Rightarrow> bool" where
  "has_dict (PObj c d as s r) = d"
| "has_dict v = False"

text \<open>
  \<^verbatim>\<open>for x in v\<close>: the elements of a list, the keys of a dictionary, the characters of a
  string; any other value is not iterable.
\<close>

fun py_iter :: "heap \<Rightarrow> pyval \<Rightarrow> exn + pyval list" where
  "py_iter H (PStr s) = Inr (map (\<lambda>c. PStr [c]) s)"
| "py_iter H (PRef a) =
     (case cell H a of
        None \<Rightarrow> Inl (TypeError ''object is not iterable'')
      | Some (CList xs) \<Rightarrow> Inr xs
      | Some (CDict kvs) \<Rightarrow> Inr (map fst kvs))"
| "py_iter H v = Inl (TypeError ''object is not iterable'')"

section \<open>The two output sinks\<close>

datatype severity = DEBUG | INFO | WARNING | ERROR | CRITICAL

record log_record =
  rec_level :: severity
  rec_msg :: string
  rec_exc_info :: bool

text \<open>
  The state the adapter can change: the text written to standard output (what is still
  buffered and what has been flushed), the calls made on the module's logger, and the
  attribute \<^verbatim>\<open>self.context\<close>.
\<close>

record state =
  stdout_pending :: string
  stdout_flushed :: string
  log_records :: "log_record list"
  self_context :: "pyval option"

type_synonym 'a io = "state \<Rightarrow> (exn + 'a) \<times> state"

definition ret :: "'a \<Rightarrow> 'a io" where
  "ret x = (\<lambda>s. (Inr x, s))"

definition lift :: "exn + 'a \<Rightarrow> 'a io" where
  "lift r = (\<lambda>s. (r, s))"

definition bnd :: "'a io \<Rightarrow> ('a \<Rightarrow> 'b io) \<Rightarrow> 'b io" where
  "bnd m f = (\<lambda>s. case m s of (Inl e, s') \<Rightarrow> (Inl e, s') | (Inr x, s') \<Rightarrow> f x s')"

text \<open>A block of statements runs them in order and stops at the first one that raises.\<close>

fun run_all :: "unit io list \<Rightarrow> unit io" where
  "run_all [] = ret ()"
| "run_all (m # ms) = bnd m (\<lambda>_. run_all ms)"

definition py_if :: "bool \<Rightarrow> unit io list \<Rightarrow> unit io" where
  "py_if c ms = (if c then run_all ms else ret ())"

fun foreach :: "'a list \<Rightarrow> ('a \<Rightarrow> unit io) \<Rightarrow> unit io" where
  "foreach [] f = ret ()"
| "foreach (x # xs) f = bnd (f x) (\<lambda>_. foreach xs f)"

text \<open>\<^verbatim>\<open>try: body except Exception: handler\<close>.\<close>

definition try_except :: "'a io \<Rightarrow> 'a io \<Rightarrow> 'a io" where
  "try_except body handler =
     (\<lambda>s. case body s of
        (Inl e, s') \<Rightarrow> if is_Exception e then handler s' else (Inl e, s')
      | (Inr x, s') \<Rightarrow> (Inr x, s'))"

definition stdout_write :: "string \<Rightarrow> unit io" where
  "stdout_write t = (\<lambda>s. (Inr (), s\<lparr>stdout_pending := stdout_pending s @ t\<rparr>))"

definition stdout_flush :: "unit io" where
  "stdout_flush =
     (\<lambda>s. (Inr (), s\<lparr>stdout_flushed := stdout_flushed s @ stdout_pending s,
                     stdout_pending := []\<rparr>))"

text \<open>\<^verbatim>\<open>print(message, flush=True)\<close>: the message, a newline, and a flush.\<close>

definition print_flush :: "string \<Rightarrow> unit io" where
  "print_flush message = run_all [stdout_write message, stdout_write [CHR 0x0A], stdout_flush]"

text \<open>
  \<^verbatim>\<open>getattr(log, level)\<close>: the five level methods of a logger. Any other name is read as
  an attribute the logger does not have; the adapter passes \<^verbatim>\<open>"info"\<close> and
  \<^verbatim>\<open>"error"\<close> only.
\<close>

definition logger_method :: "string \<Rightarrow> severity option" where
  "logger_method level =
     (if level = ''debug'' then Some DEBUG
      else if level = ''info'' then Some INFO
      else if level = ''warning'' then Some WARNING
      else if level = ''error'' then Some ERROR
      else if level = ''critical'' then Some CRITICAL
      else None)"

definition logger_call :: "severity \<Rightarrow> string \<Rightarrow> bool \<Rightarrow> unit io" where
  "logger_call sev message exc =
     (\<lambda>s. (Inr (), s\<lparr>log_records := log_records s
                        @ [\<lparr>rec_level = sev, rec_msg = message, rec_exc_info = exc\<rparr>]\<rparr>))"

definition log_and_print :: "string \<Rightarrow> string \<Rightarrow> unit io" where
  "log_and_print message level =
     run_all
       [print_flush message,
        stdout_flush,
        (case logger_method level of
           None \<Rightarrow> lift (Inl (AttributeError level))
         | Some sev \<Rightarrow> logger_call sev message False)]"

section \<open>The payload formatter\<close>

text \<open>
  Lines 40 to 47, over the three operations the body calls: the test
  \<^verbatim>\<open>isinstance(data, (dict, list))\<close>, \<^verbatim>\<open>json.dumps(data, indent=indent, default=str)\<close> and
  \<^verbatim>\<open>str(data)\<close>. The last two run the \<^verbatim>\<open>__str__\<close> and \<^verbatim>\<open>__repr__\<close> of the objects they
  meet, which is code of the caller: they are runs on the state like any other, free to
  write to a sink and to read what was written.
\<close>

definition format_payload_with ::
  "('v \<Rightarrow> bool) \<Rightarrow> ('v \<Rightarrow> int \<Rightarrow> string io) \<Rightarrow> ('v \<Rightarrow> string io) \<Rightarrow> 'v \<Rightarrow> int \<Rightarrow> string io"
  where
  "format_payload_with is_dict_or_list_of dumps_of str_of data indent =
     try_except
       (if is_dict_or_list_of data then dumps_of data indent
        else str_of data)
       (str_of data)"

text \<open>
  The formatter on the values of the store \<open>H\<close>, whose objects carry the outcome of their
  \<^verbatim>\<open>__str__\<close> and \<^verbatim>\<open>__repr__\<close> as data.
\<close>

definition format_payload :: "heap \<Rightarrow> pyval \<Rightarrow> int \<Rightarrow> string io" where
  "format_payload H data indent =
     format_payload_with (is_dict_or_list H) (\<lambda>v i. lift (json_dumps H v i))
       (\<lambda>v. lift (py_str H v)) data indent"

text \<open>
  \<^verbatim>\<open>str\<close> in a program whose class \<^verbatim>\<open>Ticker\<close> defines \<^verbatim>\<open>__str__\<close> to write
  \<^verbatim>\<open>tick\<close> to standard output and to return the number of characters waiting there.
\<close>

definition ticker_str :: "heap \<Rightarrow> pyval \<Rightarrow> string io" where
  "ticker_str H v =
     (if type_name H v = ''Ticker''
      then bnd (stdout_write ''tick'')
             (\<lambda>_. (\<lambda>s. (Inr (show_nat (length (stdout_pending s))), s)))
      else lift (py_str H v))"


section \<open>The adapter\<close>

definition SEPARATOR_THICK :: string where
  "SEPARATOR_THICK = replicate 80 CHR ''=''"

definition SEPARATOR_THIN :: string where
  "SEPARATOR_THIN = replicate 80 CHR ''-''"

definition ARROW_IN :: string where
  "ARROW_IN = replicate 80 CHR ''>''"

definition ARROW_OUT :: string where
  "ARROW_OUT = replicate 80 CHR ''<''"

definition BANNER_START :: string where
  "BANNER_START =
     [CHR 0x0A] @ replicate 80 CHR ''#'' @ [CHR 0x0A] @ ''#'' @ replicate 30 CHR '' ''
     @ ''GATEWAY EVENT'' @ replicate 35 CHR '' '' @ ''#'' @ [CHR 0x0A] @ replicate 80 CHR ''#''"

text \<open>The task descriptor of the host framework, with the fields the adapter sets.\<close>

datatype content_part = TextPart string

definition create_text_part :: "string \<Rightarrow> content_part" where
  "create_text_part t = TextPart t"

text \<open>
  \<^verbatim>\<open>SamTask\<close> is a validated model of the host framework
  (\<^verbatim>\<open>solace_agent_mesh.gateway.adapter.types\<close>), declared outside this repository. Of its
  declaration the model keeps what decides a call by keywords: the fields \<^verbatim>\<open>parts\<close>
  and \<^verbatim>\<open>target_agent\<close> are required, a keyword that names no field is not stored, and
  a missing or ill-typed required field makes the constructor raise
  \<^verbatim>\<open>ValidationError\<close>. An instance has the declared fields only: reading
  \<^verbatim>\<open>task.content\<close> raises \<^verbatim>\<open>AttributeError\<close>.
\<close>

datatype kwarg =
    KwText string
  | KwParts "content_part list"
  | KwDict "(string \<times> string) list"

record sam_task =
  parts :: "content_part list"
  target_agent :: string

definition SamTask :: "(string \<times> kwarg) list \<Rightarrow> exn + sam_task" where
  "SamTask kwargs =
     (case (map_of kwargs ''parts'', map_of kwargs ''target_agent'') of
        (Some (KwParts ps), Some (KwText a)) \<Rightarrow> Inr \<lparr>parts = ps, target_agent = a\<rparr>
      | _ \<Rightarrow> Inl (OtherException ''ValidationError'' ''validation error for SamTask''))"

definition task_content :: "sam_task \<Rightarrow> exn + content_part list" where
  "task_content task = Inl (AttributeError ''content'')"

text \<open>
  A replacement field \<^verbatim>\<open>{v}\<close> of an f-string calls \<^verbatim>\<open>format(v, '')\<close>, which for the
  values modelled is \<^verbatim>\<open>str(v)\<close>.
\<close>

definition fmt :: "heap \<Rightarrow> pyval \<Rightarrow> string io" where
  "fmt H v = lift (py_str H v)"

text \<open>\<^verbatim>\<open>hasattr(v, name) and v.name\<close>, and the attribute access \<^verbatim>\<open>v.name\<close>.\<close>

definition attr_truthy :: "heap \<Rightarrow> pyval \<Rightarrow> string \<Rightarrow> bool" where
  "attr_truthy H v name = (hasattr v name \<and> truthy H (getattr v name PNone))"

definition attribute :: "pyval \<Rightarrow> string \<Rightarrow> pyval io" where
  "attribute v name =
     lift (case map_of (attrs_of v) name of
             None \<Rightarrow> Inl (AttributeError name)
           | Some x \<Rightarrow> Inr x)"

definition set_context :: "pyval \<Rightarrow> unit io" where
  "set_context c = (\<lambda>s. (Inr (), s\<lparr>self_context := Some c\<rparr>))"

definition init :: "heap \<Rightarrow> pyval \<Rightarrow> unit io" where
  "init H context =
     run_all
       [set_context context,
        log_and_print ([CHR 0x0A] @ SEPARATOR_THICK) ''info'',
        log_and_print ''    LOGGING WEBHOOK ADAPTER INITIALIZED'' ''info'',
        bnd (fmt H (getattr context ''gateway_id'' (PStr ''unknown'')))
          (\<lambda>g. log_and_print (''    Gateway ID: '' @ g) ''info''),
        log_and_print (SEPARATOR_THICK @ [CHR 0x0A]) ''info'']"

text \<open>The body of the loop over \<^verbatim>\<open>external_input.items()\<close> in \<^verbatim>\<open>prepare_task\<close>.\<close>

definition breakdown_entry :: "heap \<Rightarrow> pyval \<times> pyval \<Rightarrow> unit io" where
  "breakdown_entry H kv =
     bnd (format_payload H (snd kv) 2)
       (\<lambda>formatted_val.
          let formatted_val =
                (if length formatted_val > 500
                 then take 500 formatted_val @ ''... [TRUNCATED]''
                 else formatted_val)
          in bnd (fmt H (fst kv))
               (\<lambda>key. log_and_print (''      '' @ key @ '': '' @ formatted_val) ''info''))"

definition prepare_task :: "heap \<Rightarrow> pyval \<Rightarrow> pyval \<Rightarrow> sam_task io" where
  "prepare_task H external_input endpoint_context =
     bnd (run_all
       [log_and_print BANNER_START ''info'',
        log_and_print ([CHR 0x0A] @ SEPARATOR_THICK) ''info'',
        log_and_print ARROW_IN ''info'',
        log_and_print ''    INCOMING WEBHOOK REQUEST RECEIVED'' ''info'',
        log_and_print ARROW_IN ''info'',
        log_and_print SEPARATOR_THIN ''info'',
        py_if (truthy H endpoint_context)
          [log_and_print ([CHR 0x0A] @ ''    ENDPOINT CONTEXT:'') ''info'',
           bnd (format_payload H endpoint_context 2) (\<lambda>t. log_and_print t ''info''),
           log_and_print SEPARATOR_THIN ''info''],
        log_and_print ([CHR 0x0A] @ ''    RAW EXTERNAL INPUT PAYLOAD:'') ''info'',
        log_and_print SEPARATOR_THIN ''info'',
        bnd (format_payload H external_input 2) (\<lambda>t. log_and_print t ''info''),
        log_and_print SEPARATOR_THIN ''info'',
        py_if (is_dict H external_input)
          [log_and_print ([CHR 0x0A] @ ''    PAYLOAD BREAKDOWN:'') ''info'',
           foreach (dict_items H external_input) (breakdown_entry H)],
        log_and_print ([CHR 0x0A] @ ARROW_IN) ''info'',
        log_and_print (SEPARATOR_THICK @ [CHR 0x0A]) ''info''])
     (\<lambda>_. bnd (case external_input of
                  PStr s \<Rightarrow> ret s
                | _ \<Rightarrow> format_payload H external_input 2)
       (\<lambda>task_text.
          bnd (lift (SamTask
                 [(''target_agent'', KwText ''OrchestratorAgent''),
                  (''content'', KwParts [create_text_part task_text]),
                  (''metadata'', KwDict [(''source'', ''logging_webhook_adapter'')])]))
            (\<lambda>task.
               bnd (run_all
                 [log_and_print ([CHR 0x0A] @ SEPARATOR_THIN) ''info'',
                  log_and_print ''    PREPARED SAM TASK:'' ''info'',
                  log_and_print (''      Target Agent: '' @ target_agent task) ''info'',
                  bnd (lift (task_content task))
                    (\<lambda>c. log_and_print (''      Content Parts: '' @ show_nat (length c))
                            ''info''),
                  log_and_print (SEPARATOR_THIN @ [CHR 0x0A]) ''info''])
               (\<lambda>_. ret task))))"

text \<open>The body of the loop over \<^verbatim>\<open>vars(update).items()\<close> in \<^verbatim>\<open>handle_update\<close>.\<close>

definition update_detail :: "heap \<Rightarrow> string \<times> pyval \<Rightarrow> unit io" where
  "update_detail H av =
     py_if (\<not> prefix ''_'' (fst av))
       [bnd (format_payload H (snd av) 2)
          (\<lambda>formatted_value.
             if length formatted_value > 2000 then
               run_all
                 [log_and_print (''      '' @ fst av @ '' (truncated):'') ''info'',
                  log_and_print (''        '' @ take 2000 formatted_value @ ''...'') ''info'',
                  log_and_print (''        [Total length: ''
                                 @ show_nat (length formatted_value) @ '' chars]'') ''info'']
             else
               run_all
                 [log_and_print (''      '' @ fst av @ '':'') ''info'',
                  log_and_print (''        '' @ formatted_value) ''info''])]"

definition handle_update :: "heap \<Rightarrow> pyval \<Rightarrow> pyval \<Rightarrow> unit io" where
  "handle_update H update context =
     run_all
       [log_and_print BANNER_START ''info'',
        log_and_print ([CHR 0x0A] @ SEPARATOR_THICK) ''info'',
        log_and_print ARROW_OUT ''info'',
        log_and_print ''    AGENT MESH RESPONSE/UPDATE RECEIVED'' ''info'',
        log_and_print ARROW_OUT ''info'',
        log_and_print SEPARATOR_THIN ''info'',
        log_and_print ([CHR 0x0A] @ ''    UPDATE TYPE: '' @ type_name H update) ''info'',
        log_and_print ([CHR 0x0A] @ ''    RESPONSE CONTEXT:'') ''info'',
        bnd (fmt H (getattr context ''session_id'' (PStr ''N/A'')))
          (\<lambda>t. log_and_print (''      Session ID: '' @ t) ''info''),
        bnd (fmt H (getattr context ''task_id'' (PStr ''N/A'')))
          (\<lambda>t. log_and_print (''      Task ID: '' @ t) ''info''),
        bnd (fmt H (getattr context ''user_id'' (PStr ''N/A'')))
          (\<lambda>t. log_and_print (''      User ID: '' @ t) ''info''),
        log_and_print ([CHR 0x0A] @ SEPARATOR_THIN) ''info'',
        log_and_print ''    UPDATE DETAILS:'' ''info'',
        (if has_dict update then foreach (attrs_of update) (update_detail H)
         else bnd (format_payload H update 2)
                (\<lambda>t. log_and_print (''      Raw Update: '' @ t) ''info'')),
        py_if (attr_truthy H update ''text'')
          [log_and_print ([CHR 0x0A] @ SEPARATOR_THIN) ''info'',
           log_and_print ''    TEXT CONTENT:'' ''info'',
           bnd (attribute update ''text'')
             (\<lambda>v. bnd (fmt H v) (\<lambda>t. log_and_print (''      '' @ t) ''info''))],
        py_if (attr_truthy H update ''status'')
          [log_and_print ([CHR 0x0A] @ SEPARATOR_THIN) ''info'',
           bnd (attribute update ''status'')
             (\<lambda>v. bnd (fmt H v) (\<lambda>t. log_and_print (''    STATUS: '' @ t) ''info''))],
        py_if (attr_truthy H update ''error'')
          [log_and_print ([CHR 0x0A] @ SEPARATOR_THIN) ''info'',
           bnd (attribute update ''error'')
             (\<lambda>v. bnd (fmt H v) (\<lambda>t. log_and_print (''    ERROR: '' @ t) ''info''))],
        py_if (attr_truthy H update ''artifacts'')
          [log_and_print ([CHR 0x0A] @ SEPARATOR_THIN) ''info'',
           log_and_print ''    ARTIFACTS:'' ''info'',
           bnd (attribute update ''artifacts'')
             (\<lambda>v. bnd (lift (py_iter H v))
                (\<lambda>artifacts. foreach artifacts
                   (\<lambda>artifact. bnd (format_payload H artifact 2)
                      (\<lambda>t. log_and_print (''      - '' @ t) ''info''))))],
        log_and_print ([CHR 0x0A] @ ARROW_OUT) ''info'',
        log_and_print (SEPARATOR_THICK @ [CHR 0x0A]) ''info'']"

definition on_task_complete :: "heap \<Rightarrow> pyval \<Rightarrow> unit io" where
  "on_task_complete H context =
     run_all
       [log_and_print ([CHR 0x0A] @ SEPARATOR_THICK) ''info'',
        log_and_print ''    TASK COMPLETED'' ''info'',
        bnd (fmt H (getattr context ''session_id'' (PStr ''N/A'')))
          (\<lambda>t. log_and_print (''      Session ID: '' @ t) ''info''),
        bnd (fmt H (getattr context ''task_id'' (PStr ''N/A'')))
          (\<lambda>t. log_and_print (''      Task ID: '' @ t) ''info''),
        log_and_print (SEPARATOR_THICK @ [CHR 0x0A]) ''info'']"

text \<open>\<^verbatim>\<open>context\<close> defaults to \<^verbatim>\<open>None\<close>, which is \<open>PNone\<close>.\<close>

definition on_error :: "heap \<Rightarrow> pyval \<Rightarrow> pyval \<Rightarrow> unit io" where
  "on_error H error context =
     run_all
       [log_and_print ([CHR 0x0A] @ SEPARATOR_THICK) ''error'',
        log_and_print ''    ERROR IN GATEWAY PROCESSING'' ''error'',
        log_and_print SEPARATOR_THIN ''error'',
        log_and_print (''    Error Type: '' @ type_name H error) ''error'',
        bnd (lift (py_str H error))
          (\<lambda>t. log_and_print (''    Error Message: '' @ t) ''error''),
        py_if (truthy H context)
          [bnd (fmt H (getattr context ''session_id'' (PStr ''N/A'')))
             (\<lambda>t. log_and_print (''    Context Session ID: '' @ t) ''error''),
           bnd (fmt H (getattr context ''task_id'' (PStr ''N/A'')))
             (\<lambda>t. log_and_print (''    Context Task ID: '' @ t) ''error'')],
        log_and_print (SEPARATOR_THICK @ [CHR 0x0A]) ''error'',
        logger_call ERROR ''Full traceback:'' True]"

definition initial_state :: state where
  "initial_state = \<lparr>stdout_pending = [], stdout_flushed = [], log_records = [],
                     self_context = None\<rparr>"


section \<open>Values whose conversion to text returns\<close>

text \<open>
  \<^verbatim>\<open>str\<close> and \<^verbatim>\<open>repr\<close> run the \<^verbatim>\<open>__str__\<close> and \<^verbatim>\<open>__repr__\<close> of the objects they
  meet. A value is convertible when it is not an object whose \<^verbatim>\<open>__str__\<close> or
  \<^verbatim>\<open>__repr__\<close> raises, and a store when every value kept in one of its containers is.
\<close>

fun val_ok :: "pyval \<Rightarrow> bool" where
  "val_ok (PObj c d as s r) = (\<not> isl s \<and> \<not> isl r)"
| "val_ok v = True"

fun cell_ok :: "container \<Rightarrow> bool" where
  "cell_ok (CList xs) = list_all val_ok xs"
| "cell_ok (CDict kvs) = list_all (\<lambda>kv. val_ok (fst kv) \<and> val_ok (snd kv)) kvs"

definition heap_ok :: "heap \<Rightarrow> bool" where
  "heap_ok H = list_all cell_ok H"

definition attrs_ok :: "pyval \<Rightarrow> bool" where
  "attrs_ok v = list_all (\<lambda>nv. val_ok (snd nv)) (attrs_of v)"

fun tree_ok :: "ptree \<Rightarrow> bool" where
  "tree_ok (TObj c s r) = (\<not> isl s \<and> \<not> isl r)"
| "tree_ok (TList xs) = (\<forall>x \<in> set xs. tree_ok x)"
| "tree_ok (TDict kvs) = (\<forall>kv \<in> set kvs. tree_ok (fst kv) \<and> tree_ok (snd kv))"
| "tree_ok t = True"

section \<open>Observations\<close>

text \<open>The value \<^verbatim>\<open>_format_payload\<close> returns or the exception it raises.\<close>

definition formatted :: "heap \<Rightarrow> pyval \<Rightarrow> int \<Rightarrow> exn + string" where
  "formatted H data indent = fst (format_payload H data indent initial_state)"

text \<open>The records a run has added to the logger, and the text \<^verbatim>\<open>print\<close> writes for them.\<close>

definition new_records :: "state \<Rightarrow> state \<Rightarrow> log_record list" where
  "new_records s s' = drop (length (log_records s)) (log_records s')"

definition console_text :: "log_record list \<Rightarrow> string" where
  "console_text rs = concat (map (\<lambda>r. rec_msg r @ [CHR 0x0A]) rs)"


text \<open>From \<open>s\<close> to \<open>s'\<close> records were only added, and every added message satisfies \<open>P\<close>.\<close>

definition added :: "(string \<Rightarrow> bool) \<Rightarrow> state \<Rightarrow> state \<Rightarrow> bool" where
  "added P s s' =
     (log_records s' = log_records s @ new_records s s'
      \<and> list_all (\<lambda>r. P (rec_msg r)) (new_records s s'))"

definition info :: "string \<Rightarrow> log_record" where
  "info m = \<lparr>rec_level = INFO, rec_msg = m, rec_exc_info = False\<rparr>"

definition err :: "string \<Rightarrow> log_record" where
  "err m = \<lparr>rec_level = ERROR, rec_msg = m, rec_exc_info = False\<rparr>"

text \<open>The header lines of the error and artifact sections of \<^verbatim>\<open>handle_update\<close>.\<close>

definition error_header :: "string \<Rightarrow> bool" where
  "error_header m = prefix ''    ERROR: '' m"

definition artifacts_header :: "string \<Rightarrow> bool" where
  "artifacts_header m = (m = ''    ARTIFACTS:'')"

definition no_header :: "string \<Rightarrow> bool" where
  "no_header m = (\<not> error_header m \<and> \<not> artifacts_header m)"

text \<open>Assertions on runs: what every outcome preserves, and what a run that returns establishes.\<close>

definition keeps :: "(state \<Rightarrow> bool) \<Rightarrow> 'a io \<Rightarrow> bool" where
  "keeps I m = (\<forall>s. I s \<longrightarrow> I (snd (m s)))"

definition total :: "(state \<Rightarrow> bool) \<Rightarrow> 'a io \<Rightarrow> ('a \<Rightarrow> state \<Rightarrow> bool) \<Rightarrow> bool" where
  "total P m Q = (\<forall>s. P s \<longrightarrow> (\<exists>x. fst (m s) = Inr x \<and> Q x (snd (m s))))"

section \<open>A parser for the serialized text\<close>

text \<open>
  The reader of JSON text that \<^verbatim>\<open>json.loads\<close> implements, for the values modelled:
  \<^verbatim>\<open>null\<close>, \<^verbatim>\<open>true\<close>, \<^verbatim>\<open>false\<close>, integers, strings with their escapes, arrays and
  objects, with whitespace between tokens. A number with a fraction or an exponent, an
  escape above code point 255 and malformed text give \<open>None\<close>. The recursion is bounded by the
  length of the text.
\<close>

definition is_ws :: "char \<Rightarrow> bool" where
  "is_ws c = (c = CHR '' '' \<or> c = CHR 0x0A \<or> c = CHR 0x0D \<or> c = CHR 0x09)"

definition skip_ws :: "string \<Rightarrow> string" where
  "skip_ws s = dropWhile is_ws s"

definition digit_val :: "char \<Rightarrow> nat option" where
  "digit_val c = (let n = (of_char c :: nat) in if 48 \<le> n \<and> n \<le> 57 then Some (n - 48) else None)"

definition hex_val :: "char \<Rightarrow> nat option" where
  "hex_val c = (let n = (of_char c :: nat) in
     if 48 \<le> n \<and> n \<le> 57 then Some (n - 48)
     else if 97 \<le> n \<and> n \<le> 102 then Some (n - 87)
     else if 65 \<le> n \<and> n \<le> 70 then Some (n - 55)
     else None)"

fun parse_nat :: "nat \<Rightarrow> string \<Rightarrow> nat \<times> string" where
  "parse_nat acc [] = (acc, [])"
| "parse_nat acc (c # cs) =
     (case digit_val c of None \<Rightarrow> (acc, c # cs) | Some d \<Rightarrow> parse_nat (10 * acc + d) cs)"

definition parse_unsigned :: "string \<Rightarrow> (nat \<times> string) option" where
  "parse_unsigned s =
     (case s of
        [] \<Rightarrow> None
      | c # cs \<Rightarrow>
          (case digit_val c of
             None \<Rightarrow> None
           | Some d \<Rightarrow> if d = 0 then Some (0, cs) else Some (parse_nat d cs)))"

definition not_float :: "string \<Rightarrow> bool" where
  "not_float r = (case r of [] \<Rightarrow> True | c # cs \<Rightarrow> c \<notin> set ''.eE'')"

definition parse_int :: "string \<Rightarrow> (ptree \<times> string) option" where
  "parse_int s =
     (case s of
        [] \<Rightarrow> None
      | c # cs \<Rightarrow>
          if c = CHR ''-'' then
            (case parse_unsigned cs of
               None \<Rightarrow> None
             | Some (n, r) \<Rightarrow> if not_float r then Some (TInt (- int n), r) else None)
          else
            (case parse_unsigned s of
               None \<Rightarrow> None
             | Some (n, r) \<Rightarrow> if not_float r then Some (TInt (int n), r) else None))"

definition unescape :: "char \<Rightarrow> char option" where
  "unescape e =
     (if e = CHR 0x22 \<or> e = CHR 0x5C \<or> e = CHR ''/'' then Some e
      else if e = CHR ''b'' then Some (CHR 0x08)
      else if e = CHR ''f'' then Some (CHR 0x0C)
      else if e = CHR ''n'' then Some (CHR 0x0A)
      else if e = CHR ''r'' then Some (CHR 0x0D)
      else if e = CHR ''t'' then Some (CHR 0x09)
      else None)"

definition hex4 :: "char \<Rightarrow> char \<Rightarrow> char \<Rightarrow> char \<Rightarrow> char option" where
  "hex4 a b c d =
     (case (hex_val a, hex_val b, hex_val c, hex_val d) of
        (Some w, Some x, Some y, Some z) \<Rightarrow>
          if w = 0 \<and> x = 0 then Some (char_of (16 * y + z)) else None
      | _ \<Rightarrow> None)"

fun parse_string_body :: "string \<Rightarrow> string \<Rightarrow> (string \<times> string) option" where
  "parse_string_body acc [] = None"
| "parse_string_body acc (c # cs) =
     (if c = CHR 0x22 then Some (acc, cs)
      else if c = CHR 0x5C then
        (case cs of
           [] \<Rightarrow> None
         | e # r \<Rightarrow>
             if e = CHR ''u'' then
               (case r of
                  a # b # c' # d # r' \<Rightarrow>
                    (case hex4 a b c' d of
                       None \<Rightarrow> None
                     | Some u \<Rightarrow> parse_string_body (acc @ [u]) r')
                | _ \<Rightarrow> None)
             else
               (case unescape e of
                  None \<Rightarrow> None
                | Some u \<Rightarrow> parse_string_body (acc @ [u]) r))
      else if (of_char c :: nat) < 32 then None
      else parse_string_body (acc @ [c]) cs)"

fun dict_set :: "(ptree \<times> ptree) list \<Rightarrow> ptree \<Rightarrow> ptree \<Rightarrow> (ptree \<times> ptree) list" where
  "dict_set [] k v = [(k, v)]"
| "dict_set ((k', v') # kvs) k v = (if k' = k then (k, v) # kvs else (k', v') # dict_set kvs k v)"

fun parse_value :: "nat \<Rightarrow> string \<Rightarrow> (ptree \<times> string) option"
and parse_elems :: "nat \<Rightarrow> string \<Rightarrow> ptree list \<Rightarrow> (ptree \<times> string) option"
and parse_members :: "nat \<Rightarrow> string \<Rightarrow> (ptree \<times> ptree) list \<Rightarrow> (ptree \<times> string) option"
where
  "parse_value 0 s = None"
| "parse_value (Suc n) s =
     (case s of
        [] \<Rightarrow> None
      | c # cs \<Rightarrow>
          if c = CHR ''{'' then
            (case skip_ws cs of
               [] \<Rightarrow> None
             | d # r \<Rightarrow> if d = CHR ''}'' then Some (TDict [], r) else parse_members n (d # r) [])
          else if c = CHR ''['' then
            (case skip_ws cs of
               [] \<Rightarrow> None
             | d # r \<Rightarrow> if d = CHR '']'' then Some (TList [], r) else parse_elems n (d # r) [])
          else if c = CHR 0x22 then
            (case parse_string_body [] cs of None \<Rightarrow> None | Some (t, r) \<Rightarrow> Some (TStr t, r))
          else if prefix ''null'' s then Some (TNone, drop 4 s)
          else if prefix ''true'' s then Some (TBool True, drop 4 s)
          else if prefix ''false'' s then Some (TBool False, drop 5 s)
          else parse_int s)"
| "parse_elems 0 s acc = None"
| "parse_elems (Suc n) s acc =
     (case parse_value n s of
        None \<Rightarrow> None
      | Some (v, r) \<Rightarrow>
          (case skip_ws r of
             [] \<Rightarrow> None
           | d # r' \<Rightarrow>
               if d = CHR '','' then parse_elems n (skip_ws r') (acc @ [v])
               else if d = CHR '']'' then Some (TList (acc @ [v]), r')
               else None))"
| "parse_members 0 s acc = None"
| "parse_members (Suc n) s acc =
     (case s of
        [] \<Rightarrow> None
      | q # cs \<Rightarrow>
          if q \<noteq> CHR 0x22 then None
          else
            (case parse_string_body [] cs of
               None \<Rightarrow> None
             | Some (k, r) \<Rightarrow>
                 (case skip_ws r of
                    [] \<Rightarrow> None
                  | c # r1 \<Rightarrow>
                      if c \<noteq> CHR '':'' then None
                      else
                        (case parse_value n (skip_ws r1) of
                           None \<Rightarrow> None
                         | Some (v, r2) \<Rightarrow>
                             (case skip_ws r2 of
                                [] \<Rightarrow> None
                              | d # r3 \<Rightarrow>
                                  if d = CHR '','' then
                                    parse_members n (skip_ws r3) (dict_set acc (TStr k) v)
                                  else if d = CHR ''}'' then
                                    Some (TDict (dict_set acc (TStr k) v), r3)
                                  else None)))))"

definition json_loads :: "string \<Rightarrow> ptree option" where
  "json_loads s =
     (case parse_value (Suc (length s)) (skip_ws s) of
        None \<Rightarrow> None
      | Some (v, r) \<Rightarrow> if skip_ws r = [] then Some v else None)"


text \<open>The mapping \<^verbatim>\<open>{"a": 1, "b": [1, 2, 3]}\<close> and its serialization with indent 2.\<close>

definition example_heap :: heap where
  "example_heap =
     [CDict [(PStr ''a'', PInt 1), (PStr ''b'', PRef 1)], CList [PInt 1, PInt 2, PInt 3]]"

definition example_text :: string where
  "example_text =
     ''{'' @ [CHR 0x0A]
     @ ''  '' @ [CHR 0x22] @ ''a'' @ [CHR 0x22] @ '': 1,'' @ [CHR 0x0A]
     @ ''  '' @ [CHR 0x22] @ ''b'' @ [CHR 0x22] @ '': ['' @ [CHR 0x0A]
     @ ''    1,'' @ [CHR 0x0A]
     @ ''    2,'' @ [CHR 0x0A]
     @ ''    3'' @ [CHR 0x0A]
     @ ''  ]'' @ [CHR 0x0A]
     @ ''}''"

text \<open>
  An identifier of a context renders when the context lacks it or its value converts to
  text. An update is well-behaved when its own text and that of its attributes convert,
  and its \<^verbatim>\<open>artifacts\<close>, where truthy, can be iterated.
\<close>

definition renders :: "heap \<Rightarrow> pyval \<Rightarrow> string \<Rightarrow> bool" where
  "renders H c name = (\<not> isl (py_str H (getattr c name PNone)))"

definition update_ok :: "heap \<Rightarrow> pyval \<Rightarrow> bool" where
  "update_ok H update =
     (val_ok update \<and> attrs_ok update
      \<and> (\<not> attr_truthy H update ''artifacts''
           \<or> \<not> isl (py_iter H (getattr update ''artifacts'' PNone))))"

text \<open>
  The three parts of the body of \<^verbatim>\<open>handle_update\<close>: lines 137 to 155, the dump of the
  update in lines 158 to 171, and the sections of lines 174 to 194.
\<close>

definition update_head :: "heap \<Rightarrow> pyval \<Rightarrow> pyval \<Rightarrow> unit io" where
  "update_head H update context =
     run_all
       [log_and_print BANNER_START ''info'',
        log_and_print ([CHR 0x0A] @ SEPARATOR_THICK) ''info'',
        log_and_print ARROW_OUT ''info'',
        log_and_print ''    AGENT MESH RESPONSE/UPDATE RECEIVED'' ''info'',
        log_and_print ARROW_OUT ''info'',
        log_and_print SEPARATOR_THIN ''info'',
        log_and_print ([CHR 0x0A] @ ''    UPDATE TYPE: '' @ type_name H update) ''info'',
        log_and_print ([CHR 0x0A] @ ''    RESPONSE CONTEXT:'') ''info'',
        bnd (fmt H (getattr context ''session_id'' (PStr ''N/A'')))
          (\<lambda>t. log_and_print (''      Session ID: '' @ t) ''info''),
        bnd (fmt H (getattr context ''task_id'' (PStr ''N/A'')))
          (\<lambda>t. log_and_print (''      Task ID: '' @ t) ''info''),
        bnd (fmt H (getattr context ''user_id'' (PStr ''N/A'')))
          (\<lambda>t. log_and_print (''      User ID: '' @ t) ''info''),
        log_and_print ([CHR 0x0A] @ SEPARATOR_THIN) ''info'',
        log_and_print ''    UPDATE DETAILS:'' ''info'']"

definition update_dump :: "heap \<Rightarrow> pyval \<Rightarrow> unit io" where
  "update_dump H update =
     (if has_dict update then foreach (attrs_of update) (update_detail H)
      else bnd (format_payload H update 2)
             (\<lambda>t. log_and_print (''      Raw Update: '' @ t) ''info''))"

definition update_sections :: "heap \<Rightarrow> pyval \<Rightarrow> unit io" where
  "update_sections H update =
     run_all
       [py_if (attr_truthy H update ''text'')
          [log_and_print ([CHR 0x0A] @ SEPARATOR_THIN) ''info'',
           log_and_print ''    TEXT CONTENT:'' ''info'',
           bnd (attribute update ''text'')
             (\<lambda>v. bnd (fmt H v) (\<lambda>t. log_and_print (''      '' @ t) ''info''))],
        py_if (attr_truthy H update ''status'')
          [log_and_print ([CHR 0x0A] @ SEPARATOR_THIN) ''info'',
           bnd (attribute update ''status'')
             (\<lambda>v. bnd (fmt H v) (\<lambda>t. log_and_print (''    STATUS: '' @ t) ''info''))],
        py_if (attr_truthy H update ''error'')
          [log_and_print ([CHR 0x0A] @ SEPARATOR_THIN) ''info'',
           bnd (attribute update ''error'')
             (\<lambda>v. bnd (fmt H v) (\<lambda>t. log_and_print (''    ERROR: '' @ t) ''info''))],
        py_if (attr_truthy H update ''artifacts'')
          [log_and_print ([CHR 0x0A] @ SEPARATOR_THIN) ''info'',
           log_and_print ''    ARTIFACTS:'' ''info'',
           bnd (attribute update ''artifacts'')
             (\<lambda>v. bnd (lift (py_iter H v))
                (\<lambda>artifacts. foreach artifacts
                   (\<lambda>artifact. bnd (format_payload H artifact 2)
                      (\<lambda>t. log_and_print (''      - '' @ t) ''info''))))],
        log_and_print ([CHR 0x0A] @ ARROW_OUT) ''info'',
        log_and_print (SEPARATOR_THICK @ [CHR 0x0A]) ''info'']"

text \<open>
  A text moved one nesting level deeper: every newline in it is followed by \<open>n\<close> more
  spaces.
\<close>

definition shift :: "nat \<Rightarrow> string \<Rightarrow> string" where
  "shift n t =
     concat (map (\<lambda>c. if c = CHR 0x0A then CHR 0x0A # replicate n CHR '' '' else [c]) t)"

section \<open>Properties\<close>

subsection \<open>Running the combinators\<close>

lemma ret_apply [simp]: "ret x s = (Inr x, s)"
  by (simp add: ret_def)

lemma lift_apply [simp]: "lift r s = (r, s)"
  by (simp add: lift_def)

lemma bnd_Inr [simp]: "m s = (Inr x, s') \<Longrightarrow> bnd m f s = f x s'"
  by (simp add: bnd_def)

lemma bnd_Inl [simp]: "m s = (Inl e, s') \<Longrightarrow> bnd m f s = (Inl e, s')"
  by (simp add: bnd_def)

lemma logger_method_info [simp]: "logger_method ''info'' = Some INFO"
  by (simp add: logger_method_def)

lemma logger_method_error [simp]: "logger_method ''error'' = Some ERROR"
  by (simp add: logger_method_def)

lemma log_and_print_apply:
  "logger_method level = Some sev \<Longrightarrow>
   log_and_print message level s =
     (Inr (), s\<lparr>stdout_pending := [],
               stdout_flushed := stdout_flushed s @ stdout_pending s @ message @ [CHR 0x0A],
               log_records := log_records s
                 @ [\<lparr>rec_level = sev, rec_msg = message, rec_exc_info = False\<rparr>]\<rparr>)"
  by (simp add: log_and_print_def print_flush_def stdout_write_def stdout_flush_def
      logger_call_def bnd_def)


subsection \<open>The formatter\<close>

lemma format_payload_apply: "format_payload H data indent s = (formatted H data indent, s)"
  by (cases "json_dumps H data indent"; cases "py_str H data")
     (simp_all add: formatted_def format_payload_def format_payload_with_def try_except_def)

lemma formatted_eq:
  "formatted H data indent =
     (if is_dict_or_list H data then
        (case json_dumps H data indent of
           Inr t \<Rightarrow> Inr t
         | Inl e \<Rightarrow> if is_Exception e then py_str H data else Inl e)
      else py_str H data)"
  by (cases "json_dumps H data indent"; cases "py_str H data")
     (auto simp add: formatted_def format_payload_def format_payload_with_def
        try_except_def)


lemma example_dumps: "json_dumps example_heap (PRef 0) 2 = Inr example_text"
  by code_simp

lemma example_loads:
  "json_loads example_text =
     Some (TDict [(TStr ''a'', TInt 1), (TStr ''b'', TList [TInt 1, TInt 2, TInt 3])])"
  by code_simp

lemma example_view:
  "view example_heap [] (PRef 0) =
     TDict [(TStr ''a'', TInt 1), (TStr ''b'', TList [TInt 1, TInt 2, TInt 3])]"
  by (simp add: example_heap_def)

lemma example_keys:
  "sublist (json_string ''a'') example_text \<and> sublist (json_string ''b'') example_text"
proof
  have "example_text = (''{'' @ [CHR 0x0A] @ ''  '') @ json_string ''a''
      @ ('': 1,'' @ [CHR 0x0A] @ ''  '' @ [CHR 0x22] @ ''b'' @ [CHR 0x22] @ '': ['' @ [CHR 0x0A]
         @ ''    1,'' @ [CHR 0x0A] @ ''    2,'' @ [CHR 0x0A] @ ''    3'' @ [CHR 0x0A]
         @ ''  ]'' @ [CHR 0x0A] @ ''}'')"
    by (simp add: example_text_def json_string_def json_char_def)
  then show "sublist (json_string ''a'') example_text"
    unfolding sublist_def by blast
next
  have "example_text = (''{'' @ [CHR 0x0A] @ ''  '' @ [CHR 0x22] @ ''a'' @ [CHR 0x22] @ '': 1,''
         @ [CHR 0x0A] @ ''  '') @ json_string ''b''
      @ ('': ['' @ [CHR 0x0A]
         @ ''    1,'' @ [CHR 0x0A] @ ''    2,'' @ [CHR 0x0A] @ ''    3'' @ [CHR 0x0A]
         @ ''  ]'' @ [CHR 0x0A] @ ''}'')"
    by (simp add: example_text_def json_string_def json_char_def)
  then show "sublist (json_string ''b'') example_text"
    unfolding sublist_def by blast
qed

subsection \<open>Conversions that return\<close>

lemma collect_Inr:
  "(\<forall>r \<in> set rs. \<not> isl r) \<Longrightarrow> \<exists>xs. collect rs = Inr xs"
proof (induction rs)
  case Nil
  show ?case by simp
next
  case (Cons r rs)
  then obtain xs where "collect rs = Inr xs" by auto
  moreover from Cons.prems obtain x where "r = Inr x" by (cases r) auto
  ultimately show ?case by simp
qed

lemma collect_Inl:
  "collect rs = Inl e \<Longrightarrow> Inl e \<in> set rs"
  by (induction rs rule: collect.induct) (auto split: sum.splits)

lemma pair_up_Inr: "\<not> isl k \<Longrightarrow> \<not> isl v \<Longrightarrow> \<not> isl (pair_up sep k v)"
  by (cases k; cases v) (simp_all add: pair_up_def)

lemma pair_up_Inl: "pair_up sep k v = Inl e \<Longrightarrow> k = Inl e \<or> v = Inl e"
  by (cases k; cases v) (simp_all add: pair_up_def)

lemma view_ok:
  "heap_ok H \<Longrightarrow> val_ok v \<Longrightarrow> tree_ok (view H stk v)"
proof (induction H stk v rule: view.induct)
  case (6 H stk a)
  show ?case
  proof (cases "a < length H")
    case False
    then show ?thesis by simp
  next
    case True
    with "6.prems"(1) have ok: "cell_ok (H ! a)"
      by (simp add: heap_ok_def list_all_length)
    show ?thesis
    proof (cases "H ! a")
      case (CList xs)
      with ok have "\<forall>x \<in> set xs. val_ok x" by (simp add: list_all_iff)
      with True CList "6.IH"(1) "6.prems"(1) show ?thesis by auto
    next
      case (CDict kvs)
      with ok have "\<forall>kv \<in> set kvs. val_ok (fst kv) \<and> val_ok (snd kv)"
        by (simp add: list_all_iff)
      with True CDict "6.IH"(2,3) "6.prems"(1) show ?thesis by auto
    qed
  qed
qed simp_all

lemma tree_repr_ok: "tree_ok t \<Longrightarrow> \<not> isl (tree_repr t)"
proof (induction t rule: tree_repr.induct)
  case (8 xs)
  then have "\<forall>r \<in> set (map tree_repr xs). \<not> isl r" by auto
  from collect_Inr [OF this] show ?case by auto
next
  case (9 kvs)
  have "\<not> isl (pair_up '': '' (tree_repr (fst kv)) (tree_repr (snd kv)))"
    if "kv \<in> set kvs" for kv
    using that 9 by (intro pair_up_Inr) auto
  then have "\<forall>r \<in> set (map (\<lambda>kv. pair_up '': '' (tree_repr (fst kv)) (tree_repr (snd kv))) kvs).
      \<not> isl r"
    by auto
  from collect_Inr [OF this] show ?case by auto
qed simp_all

lemma tree_str_ok: "tree_ok t \<Longrightarrow> \<not> isl (tree_str t)"
  using tree_repr_ok [of t] by (cases t) auto

lemma json_key_Exception: "json_key t = Inl e \<Longrightarrow> is_Exception e"
  by (induction t rule: json_key.induct) auto

lemma json_enc_Exception:
  "tree_ok t \<Longrightarrow> json_enc indent level t = Inl e \<Longrightarrow> is_Exception e"
proof (induction indent level t arbitrary: e rule: json_enc.induct)
  case (5 indent level c s r)
  then show ?case by (cases s) auto
next
  case (7 indent level xs)
  from "7.prems"(2) have "xs \<noteq> []" by (auto split: if_splits)
  with "7.prems"(2) have "collect (map (json_enc indent (Suc level)) xs) = Inl e"
    by (auto split: sum.splits)
  then obtain x where "x \<in> set xs" "json_enc indent (Suc level) x = Inl e"
    by (auto dest!: collect_Inl)
  with "7.IH" \<open>xs \<noteq> []\<close> "7.prems"(1) show ?case by auto
next
  case (8 indent level kvs)
  from "8.prems"(2) have ne: "kvs \<noteq> []" by (auto split: if_splits)
  with "8.prems"(2) have "collect (map (\<lambda>kv. pair_up '': '' (json_key (fst kv))
                                      (json_enc indent (Suc level) (snd kv))) kvs) = Inl e"
    by (auto split: sum.splits)
  then obtain kv where kv: "kv \<in> set kvs"
     "pair_up '': '' (json_key (fst kv)) (json_enc indent (Suc level) (snd kv)) = Inl e"
    by (auto dest!: collect_Inl)
  from pair_up_Inl [OF kv(2)] show ?case
  proof
    assume "json_key (fst kv) = Inl e"
    then show ?thesis by (rule json_key_Exception)
  next
    assume "json_enc indent (Suc level) (snd kv) = Inl e"
    with "8.IH" ne kv(1) "8.prems"(1) show ?thesis by auto
  qed
qed simp_all

lemma py_str_ok: "heap_ok H \<Longrightarrow> val_ok v \<Longrightarrow> \<not> isl (py_str H v)"
  by (simp add: py_str_def tree_str_ok view_ok)

lemma formatted_ok:
  assumes "heap_ok H" "val_ok v"
  shows "\<not> isl (formatted H v indent)"
proof (cases "json_dumps H v indent")
  case (Inl e)
  with assms have "is_Exception e"
    by (auto simp: json_dumps_def intro: json_enc_Exception view_ok)
  with Inl py_str_ok [OF assms] show ?thesis by (simp add: formatted_eq)
next
  case (Inr t)
  with py_str_ok [OF assms] show ?thesis by (simp add: formatted_eq)
qed

subsection \<open>Assertions on runs\<close>

lemma keeps_ret: "keeps I (ret x)"
  by (simp add: keeps_def)

lemma keeps_lift: "keeps I (lift r)"
  by (simp add: keeps_def)

lemma keeps_fmt: "keeps I (fmt H v)"
  by (simp add: keeps_def fmt_def)

lemma keeps_attribute: "keeps I (attribute v n)"
  by (simp add: keeps_def attribute_def)

lemma keeps_format_payload: "keeps I (format_payload H v i)"
  by (simp add: keeps_def format_payload_apply)

lemma keeps_bnd: "keeps I m \<Longrightarrow> (\<And>x. keeps I (f x)) \<Longrightarrow> keeps I (bnd m f)"
  unfolding keeps_def bnd_def
  by (auto split: prod.splits sum.splits)

lemma keeps_run_all: "(\<And>m. m \<in> set ms \<Longrightarrow> keeps I m) \<Longrightarrow> keeps I (run_all ms)"
  by (induction ms) (auto intro: keeps_ret keeps_bnd)

lemma keeps_py_if: "(\<And>m. m \<in> set ms \<Longrightarrow> keeps I m) \<Longrightarrow> keeps I (py_if c ms)"
  by (simp add: py_if_def keeps_ret keeps_run_all)

lemma keeps_foreach: "(\<And>x. x \<in> set xs \<Longrightarrow> keeps I (f x)) \<Longrightarrow> keeps I (foreach xs f)"
  by (induction xs) (auto intro: keeps_ret keeps_bnd)

lemma total_ret: "(\<And>s. P s \<Longrightarrow> Q x s) \<Longrightarrow> total P (ret x) Q"
  by (simp add: total_def)

lemma total_bnd: "total P m R \<Longrightarrow> (\<And>x. total (R x) (f x) Q) \<Longrightarrow> total P (bnd m f) Q"
  unfolding total_def bnd_def
  by (auto split: prod.splits sum.splits)

lemma total_run_all:
  "(\<And>m. m \<in> set ms \<Longrightarrow> total I m (\<lambda>_. I)) \<Longrightarrow> total I (run_all ms) (\<lambda>_. I)"
  by (induction ms) (auto intro: total_ret total_bnd)

lemma total_foreach:
  "(\<And>x. x \<in> set xs \<Longrightarrow> total I (f x) (\<lambda>_. I)) \<Longrightarrow> total I (foreach xs f) (\<lambda>_. I)"
  by (induction xs) (auto intro: total_ret total_bnd)

lemma total_fmt:
  "heap_ok H \<Longrightarrow> val_ok v \<Longrightarrow> total I (fmt H v) (\<lambda>_. I)"
  using py_str_ok [of H v] by (cases "py_str H v") (auto simp: total_def fmt_def)

lemma total_format_payload:
  "heap_ok H \<Longrightarrow> val_ok v \<Longrightarrow> total I (format_payload H v i) (\<lambda>_. I)"
  using formatted_ok [of H v i]
  by (cases "formatted H v i") (auto simp: total_def format_payload_apply)

subsection \<open>What \<^verbatim>\<open>_log_and_print\<close> does to the sinks\<close>

lemma console_text_append [simp]:
  "console_text (rs @ rs') = console_text rs @ console_text rs'"
  by (simp add: console_text_def)

lemma new_records_append:
  "log_records s' = log_records s @ rs \<Longrightarrow> new_records s s' = rs"
  by (simp add: new_records_def)




lemma added_refl: "added P s s"
  by (simp add: added_def new_records_def)

lemma added_log_and_print:
  assumes "logger_method level = Some sev" "P message"
  shows "keeps (added P b) (log_and_print message level)"
  unfolding keeps_def
proof (intro allI impI)
  fix s
  assume a: "added P b s"
  let ?r = "\<lparr>rec_level = sev, rec_msg = message, rec_exc_info = False\<rparr>"
  let ?s' = "snd (log_and_print message level s)"
  from a have r: "log_records s = log_records b @ new_records b s"
    and l: "list_all (\<lambda>r. P (rec_msg r)) (new_records b s)"
    by (simp_all add: added_def)
  have r': "log_records ?s' = log_records b @ (new_records b s @ [?r])"
    using r by (simp add: log_and_print_apply [OF assms(1)])
  then have "new_records b ?s' = new_records b s @ [?r]"
    by (rule new_records_append)
  with r' l assms(2) show "added P b ?s'"
    by (simp add: added_def)
qed

subsection \<open>The hooks and the two sinks\<close>

lemmas keeps_rules =
  keeps_ret keeps_lift keeps_fmt keeps_attribute keeps_format_payload keeps_bnd
  keeps_run_all keeps_py_if keeps_foreach










subsection \<open>Runs that return\<close>

lemma total_log_and_print:
  "logger_method level = Some sev \<Longrightarrow> keeps I (log_and_print m level)
   \<Longrightarrow> total I (log_and_print m level) (\<lambda>_. I)"
  by (simp add: total_def keeps_def log_and_print_apply)

lemma keeps_True: "keeps (\<lambda>_. True) m"
  by (simp add: keeps_def)

lemma total_info: "total (\<lambda>_. True) (log_and_print m ''info'') (\<lambda>_ _. True)"
  by (rule total_log_and_print [OF logger_method_info keeps_True])

lemma total_py_if_cond:
  "(c \<Longrightarrow> (\<And>m. m \<in> set ms \<Longrightarrow> total I m (\<lambda>_. I))) \<Longrightarrow> total I (py_if c ms) (\<lambda>_. I)"
  by (cases c) (simp_all add: py_if_def total_ret total_run_all)

subsection \<open>The parts of \<^verbatim>\<open>handle_update\<close>\<close>

lemma bnd_assoc: "bnd (bnd m f) g = bnd m (\<lambda>x. bnd (f x) g)"
  by (auto simp: bnd_def fun_eq_iff split: prod.splits sum.splits)

lemma ret_bnd: "bnd (ret x) f = f x"
  by (simp add: bnd_def ret_def)

lemma handle_update_parts:
  "handle_update H update context =
     bnd (update_head H update context)
       (\<lambda>_. bnd (update_dump H update) (\<lambda>_. update_sections H update))"
  by (simp add: handle_update_def update_head_def update_dump_def update_sections_def
      bnd_assoc ret_bnd)

lemma renders_text:
  assumes "renders H c name"
  shows "\<exists>t. py_str H (getattr c name (PStr d)) = Inr t \<and> (\<not> hasattr c name \<longrightarrow> t = d)"
proof (cases "map_of (attrs_of c) name")
  case None
  then show ?thesis by (simp add: getattr_def hasattr_def py_str_def)
next
  case (Some v)
  with assms obtain t where "py_str H v = Inr t"
    by (cases "py_str H v") (auto simp: renders_def getattr_def)
  with Some show ?thesis by (simp add: getattr_def hasattr_def)
qed

lemma update_head_run:
  assumes "py_str H (getattr context ''session_id'' (PStr ''N/A'')) = Inr sid"
    and "py_str H (getattr context ''task_id'' (PStr ''N/A'')) = Inr tid"
    and "py_str H (getattr context ''user_id'' (PStr ''N/A'')) = Inr uid"
  shows "fst (update_head H update context s) = Inr ()"
    and "log_records (snd (update_head H update context s)) = log_records s @ map info
       [BANNER_START,
        [CHR 0x0A] @ SEPARATOR_THICK,
        ARROW_OUT,
        ''    AGENT MESH RESPONSE/UPDATE RECEIVED'',
        ARROW_OUT,
        SEPARATOR_THIN,
        [CHR 0x0A] @ ''    UPDATE TYPE: '' @ type_name H update,
        [CHR 0x0A] @ ''    RESPONSE CONTEXT:'',
        ''      Session ID: '' @ sid,
        ''      Task ID: '' @ tid,
        ''      User ID: '' @ uid,
        [CHR 0x0A] @ SEPARATOR_THIN,
        ''    UPDATE DETAILS:'']"
  using assms
  by (simp_all add: update_head_def fmt_def log_and_print_apply info_def)

lemma no_header_hd: "m \<noteq> [] \<Longrightarrow> hd m \<noteq> CHR '' '' \<Longrightarrow> no_header m"
  by (cases m) (auto simp: no_header_def error_header_def artifacts_header_def)

lemma no_header_indent [simp]:
  "no_header (CHR '' '' # CHR '' '' # CHR '' '' # CHR '' '' # CHR '' '' # m)"
  by (simp add: no_header_def error_header_def artifacts_header_def)

lemma no_header_status [simp]:
  "no_header (CHR '' '' # CHR '' '' # CHR '' '' # CHR '' '' # CHR ''S'' # m)"
  by (simp add: no_header_def error_header_def artifacts_header_def)

lemma no_header_newline [simp]: "no_header (CHR 0x0A # m)"
  by (simp add: no_header_hd)

lemma no_header_consts [simp]:
  "no_header BANNER_START" "no_header ARROW_OUT" "no_header SEPARATOR_THIN"
  "no_header (SEPARATOR_THICK @ m)"
  "no_header ''    AGENT MESH RESPONSE/UPDATE RECEIVED''"
  "no_header ''    UPDATE DETAILS:''" "no_header ''    TEXT CONTENT:''"
  by (simp_all add: BANNER_START_def ARROW_OUT_def SEPARATOR_THIN_def SEPARATOR_THICK_def
      no_header_hd)
     (simp_all add: no_header_def error_header_def artifacts_header_def)

lemma total_added_info:
  "P m \<Longrightarrow> total (added P b) (log_and_print m ''info'') (\<lambda>_. added P b)"
  by (intro total_log_and_print [OF logger_method_info] added_log_and_print) simp_all

lemma total_update_detail:
  assumes "heap_ok H" "val_ok (snd av)"
  shows "total (added no_header b) (update_detail H av) (\<lambda>_. added no_header b)"
  unfolding update_detail_def
  by (intro total_py_if_cond)
     (auto intro!: total_bnd [where R = "\<lambda>_. added no_header b"] total_format_payload assms
        total_run_all total_added_info total_ret)

lemma total_update_dump:
  assumes "heap_ok H" "val_ok update" "attrs_ok update"
  shows "total (added no_header b) (update_dump H update) (\<lambda>_. added no_header b)"
proof (cases "has_dict update")
  case True
  have "val_ok (snd av)" if "av \<in> set (attrs_of update)" for av
    using that assms(3) by (simp add: attrs_ok_def list_all_iff)
  with True show ?thesis
    by (auto simp: update_dump_def intro!: total_foreach total_update_detail assms(1))
next
  case False
  then show ?thesis
    by (auto simp: update_dump_def
        intro!: total_bnd [where R = "\<lambda>_. added no_header b"] total_format_payload assms
          total_added_info)
qed

lemma update_sections_run:
  assumes "map_of (attrs_of update) ''text'' = Some (PStr ''done'')"
    and "map_of (attrs_of update) ''status'' = Some (PStr ''completed'')"
    and "\<not> attr_truthy H update ''error''"
    and "\<not> attr_truthy H update ''artifacts''"
  shows "fst (update_sections H update s) = Inr ()"
    and "log_records (snd (update_sections H update s)) = log_records s @ map info
       [[CHR 0x0A] @ SEPARATOR_THIN,
        ''    TEXT CONTENT:'',
        ''      done'',
        [CHR 0x0A] @ SEPARATOR_THIN,
        ''    STATUS: completed'',
        [CHR 0x0A] @ ARROW_OUT,
        SEPARATOR_THICK @ [CHR 0x0A]]"
proof -
  have t: "attr_truthy H update ''text''" "attr_truthy H update ''status''"
    by (simp_all add: attr_truthy_def hasattr_def getattr_def assms(1,2))
  show "fst (update_sections H update s) = Inr ()"
    by (simp add: update_sections_def py_if_def t assms attribute_def fmt_def py_str_def
        log_and_print_apply)
  show "log_records (snd (update_sections H update s)) = log_records s @ map info
       [[CHR 0x0A] @ SEPARATOR_THIN,
        ''    TEXT CONTENT:'',
        ''      done'',
        [CHR 0x0A] @ SEPARATOR_THIN,
        ''    STATUS: completed'',
        [CHR 0x0A] @ ARROW_OUT,
        SEPARATOR_THICK @ [CHR 0x0A]]"
    by (simp add: update_sections_def py_if_def t assms attribute_def fmt_def py_str_def
        log_and_print_apply info_def)
qed

subsection \<open>Runs of \<^verbatim>\<open>handle_update\<close> on any update\<close>

lemma grows_info: "keeps (added (\<lambda>_. True) b) (log_and_print m ''info'')"
  by (rule added_log_and_print) simp_all

lemma grows_update_dump: "keeps (added (\<lambda>_. True) b) (update_dump H update)"
  unfolding update_dump_def update_detail_def
  by (auto intro!: keeps_rules grows_info)

lemma grows_update_sections: "keeps (added (\<lambda>_. True) b) (update_sections H update)"
  unfolding update_sections_def
  by (intro keeps_run_all) (auto intro!: keeps_rules grows_info)

lemma py_iter_ok:
  assumes "heap_ok H" "py_iter H v = Inr xs" "x \<in> set xs"
  shows "val_ok x"
proof (cases v)
  case (PStr t)
  with assms(2,3) show ?thesis by auto
next
  case (PRef a)
  show ?thesis
  proof (cases "a < length H")
    case True
    with assms(1) have "cell_ok (H ! a)"
      by (simp add: heap_ok_def list_all_length)
    with assms(2,3) PRef True show ?thesis
      by (cases "H ! a") (auto simp: cell_def list_all_iff)
  next
    case False
    with assms(2) PRef show ?thesis by (simp add: cell_def)
  qed
qed (use assms(2) in simp_all)

lemma total_attr_section:
  assumes "heap_ok H" "attrs_ok update"
    and that: "\<And>m. m \<in> set pre \<Longrightarrow> total (\<lambda>_. True) m (\<lambda>_ _. True)"
  shows "total (\<lambda>_. True)
      (py_if (attr_truthy H update name)
         (pre @ [bnd (attribute update name)
                   (\<lambda>v. bnd (fmt H v) (\<lambda>t. log_and_print (label @ t) ''info''))]))
      (\<lambda>_ _. True)"
proof (rule total_py_if_cond)
  fix m
  assume c: "attr_truthy H update name"
    and m: "m \<in> set (pre @ [bnd (attribute update name)
                   (\<lambda>v. bnd (fmt H v) (\<lambda>t. log_and_print (label @ t) ''info''))])"
  from c obtain v where v: "map_of (attrs_of update) name = Some v"
    by (auto simp: attr_truthy_def hasattr_def)
  then have "val_ok v"
    using assms(2) by (auto simp: attrs_ok_def list_all_iff dest!: map_of_SomeD)
  then have "total (\<lambda>_. True) (bnd (fmt H v) (\<lambda>t. log_and_print (label @ t) ''info''))
      (\<lambda>_ _. True)"
    by (intro total_bnd [where R = "\<lambda>_ _. True"] total_fmt assms(1) total_info)
  then have "total (\<lambda>_. True)
      (bnd (attribute update name)
         (\<lambda>v. bnd (fmt H v) (\<lambda>t. log_and_print (label @ t) ''info''))) (\<lambda>_ _. True)"
    by (simp add: total_def attribute_def v bnd_def)
  with m that show "total (\<lambda>_. True) m (\<lambda>_ _. True)"
    by auto
qed

lemma total_artifacts_section:
  assumes "heap_ok H" "update_ok H update"
  shows "total (\<lambda>_. True)
      (py_if (attr_truthy H update ''artifacts'')
          [log_and_print ([CHR 0x0A] @ SEPARATOR_THIN) ''info'',
           log_and_print ''    ARTIFACTS:'' ''info'',
           bnd (attribute update ''artifacts'')
             (\<lambda>v. bnd (lift (py_iter H v))
                (\<lambda>artifacts. foreach artifacts
                   (\<lambda>artifact. bnd (format_payload H artifact 2)
                      (\<lambda>t. log_and_print (''      - '' @ t) ''info''))))])
      (\<lambda>_ _. True)"
proof (rule total_py_if_cond)
  fix m
  assume c: "attr_truthy H update ''artifacts''"
    and m: "m \<in> set [log_and_print ([CHR 0x0A] @ SEPARATOR_THIN) ''info'',
           log_and_print ''    ARTIFACTS:'' ''info'',
           bnd (attribute update ''artifacts'')
             (\<lambda>v. bnd (lift (py_iter H v))
                (\<lambda>artifacts. foreach artifacts
                   (\<lambda>artifact. bnd (format_payload H artifact 2)
                      (\<lambda>t. log_and_print (''      - '' @ t) ''info''))))]"
  from c obtain v where v: "map_of (attrs_of update) ''artifacts'' = Some v"
    by (auto simp: attr_truthy_def hasattr_def)
  with c assms(2) obtain xs where xs: "py_iter H v = Inr xs"
    by (cases "py_iter H v") (auto simp: update_ok_def getattr_def)
  have "total (\<lambda>_. True)
      (foreach xs (\<lambda>artifact. bnd (format_payload H artifact 2)
                      (\<lambda>t. log_and_print (''      - '' @ t) ''info''))) (\<lambda>_ _. True)"
    by (intro total_foreach total_bnd [where R = "\<lambda>_ _. True"] total_format_payload assms(1)
        total_info py_iter_ok [OF assms(1) xs])
  then have "total (\<lambda>_. True)
      (bnd (attribute update ''artifacts'')
             (\<lambda>v. bnd (lift (py_iter H v))
                (\<lambda>artifacts. foreach artifacts
                   (\<lambda>artifact. bnd (format_payload H artifact 2)
                      (\<lambda>t. log_and_print (''      - '' @ t) ''info''))))) (\<lambda>_ _. True)"
    by (simp add: total_def attribute_def v xs bnd_def)
  with m show "total (\<lambda>_. True) m (\<lambda>_ _. True)"
    by (auto intro: total_info)
qed

lemma total_update_sections:
  assumes "heap_ok H" "update_ok H update"
  shows "total (\<lambda>_. True) (update_sections H update) (\<lambda>_ _. True)"
proof -
  from assms(2) have a: "attrs_ok update"
    by (simp add: update_ok_def)
  note sec = total_attr_section [OF assms(1) a]
  have 1: "total (\<lambda>_. True)
      (py_if (attr_truthy H update ''text'')
          [log_and_print ([CHR 0x0A] @ SEPARATOR_THIN) ''info'',
           log_and_print ''    TEXT CONTENT:'' ''info'',
           bnd (attribute update ''text'')
             (\<lambda>v. bnd (fmt H v) (\<lambda>t. log_and_print (''      '' @ t) ''info''))])
      (\<lambda>_ _. True)"
    using sec [of "[log_and_print ([CHR 0x0A] @ SEPARATOR_THIN) ''info'',
           log_and_print ''    TEXT CONTENT:'' ''info'']" "''text''" "''      ''"]
    by (auto intro: total_info)
  have 2: "total (\<lambda>_. True)
      (py_if (attr_truthy H update ''status'')
          [log_and_print ([CHR 0x0A] @ SEPARATOR_THIN) ''info'',
           bnd (attribute update ''status'')
             (\<lambda>v. bnd (fmt H v) (\<lambda>t. log_and_print (''    STATUS: '' @ t) ''info''))])
      (\<lambda>_ _. True)"
    using sec [of "[log_and_print ([CHR 0x0A] @ SEPARATOR_THIN) ''info'']" "''status''"
        "''    STATUS: ''"]
    by (auto intro: total_info)
  have 3: "total (\<lambda>_. True)
      (py_if (attr_truthy H update ''error'')
          [log_and_print ([CHR 0x0A] @ SEPARATOR_THIN) ''info'',
           bnd (attribute update ''error'')
             (\<lambda>v. bnd (fmt H v) (\<lambda>t. log_and_print (''    ERROR: '' @ t) ''info''))])
      (\<lambda>_ _. True)"
    using sec [of "[log_and_print ([CHR 0x0A] @ SEPARATOR_THIN) ''info'']" "''error''"
        "''    ERROR: ''"]
    by (auto intro: total_info)
  note 4 = total_artifacts_section [OF assms]
  show ?thesis
    unfolding update_sections_def
    using 1 2 3 4 by (intro total_run_all) (auto intro: total_info)
qed

lemma handle_update_returns:
  assumes "heap_ok H" "update_ok H update"
    and "update_head H update context s = (Inr (), s1)"
  shows "fst (handle_update H update context s) = Inr ()"
proof -
  from assms(2) have "val_ok update" "attrs_ok update"
    by (simp_all add: update_ok_def)
  then have "total (added no_header s1) (update_dump H update) (\<lambda>_. added no_header s1)"
    by (intro total_update_dump assms(1))
  with added_refl [of no_header s1] obtain s2
    where d: "update_dump H update s1 = (Inr (), s2)"
    by (cases "update_dump H update s1") (auto simp: total_def)
  from total_update_sections [OF assms(1,2)]
  have "fst (update_sections H update s2) = Inr ()"
    by (auto simp: total_def)
  with assms(3) d show ?thesis
    by (simp add: handle_update_parts)
qed

lemma handle_update_keeps_head:
  assumes "update_head H update context s = (Inr (), s1)"
    and "log_records s1 = log_records s @ hs"
  shows "\<exists>rest. new_records s (snd (handle_update H update context s)) = hs @ rest"
proof -
  let ?rest = "bnd (update_dump H update) (\<lambda>_. update_sections H update)"
  have "keeps (added (\<lambda>_. True) s1) ?rest"
    by (intro keeps_bnd grows_update_dump grows_update_sections)
  with added_refl [of "\<lambda>_. True" s1] have "added (\<lambda>_. True) s1 (snd (?rest s1))"
    by (simp add: keeps_def)
  then have "log_records (snd (?rest s1)) = log_records s @ (hs @ new_records s1 (snd (?rest s1)))"
    using assms(2) by (simp add: added_def)
  then have "new_records s (snd (?rest s1)) = hs @ new_records s1 (snd (?rest s1))"
    by (rule new_records_append)
  moreover have "handle_update H update context s = ?rest s1"
    using assms(1) by (simp add: handle_update_parts)
  ultimately show ?thesis by auto
qed

subsection \<open>The records a hook opens with\<close>









subsection \<open>The layout of the serialization\<close>

lemma shift_Nil [simp]: "shift n [] = []"
  by (simp add: shift_def)

lemma shift_Cons [simp]:
  "shift n (c # t) = (if c = CHR 0x0A then CHR 0x0A # replicate n CHR '' '' else [c]) @ shift n t"
  by (simp add: shift_def)

lemma shift_append [simp]: "shift n (xs @ ys) = shift n xs @ shift n ys"
  by (simp add: shift_def)

lemma shift_id: "CHR 0x0A \<notin> set t \<Longrightarrow> shift n t = t"
  by (induction t) auto

lemma digit_char_no_newline: "digit_char k \<noteq> CHR 0x0A"
proof -
  have "''0123456789abcdef'' ! (k mod 16) \<in> set ''0123456789abcdef''"
    by (rule nth_mem) simp
  then show ?thesis
    unfolding digit_char_def by auto
qed

lemma show_nat_no_newline: "CHR 0x0A \<notin> set (show_nat k)"
proof (induction k rule: show_nat.induct)
  case (1 n)
  then show ?case
    using digit_char_no_newline [of n] digit_char_no_newline [of "n mod 10"]
    by (subst show_nat.simps) auto
qed

lemma show_int_no_newline: "CHR 0x0A \<notin> set (show_int i)"
  by (simp add: show_int_def show_nat_no_newline)

lemma json_char_no_newline: "CHR 0x0A \<notin> set (json_char c)"
  using digit_char_no_newline [of "of_char c div 16"] digit_char_no_newline [of "of_char c mod 16"]
  by (auto simp: json_char_def hex2_def)

lemma json_string_no_newline: "CHR 0x0A \<notin> set (json_string t)"
  by (simp add: json_string_def json_char_no_newline)

lemma json_key_no_newline: "json_key t = Inr k \<Longrightarrow> CHR 0x0A \<notin> set k"
  by (induction t rule: json_key.induct) (auto simp: json_string_no_newline)

lemma shift_newline_indent:
  "shift (nat indent) (newline_indent indent level) = newline_indent indent (Suc level)"
proof -
  have "shift n (replicate m CHR '' '') = replicate m CHR '' ''" for n m
    by (rule shift_id) auto
  then show ?thesis
    by (simp add: newline_indent_def replicate_add [symmetric])
qed

lemma shift_join: "shift n (join sep ss) = join (shift n sep) (map (shift n) ss)"
  by (induction sep ss rule: join.induct) simp_all

lemma collect_map_sum:
  "collect (map (map_sum id g) rs) = map_sum id (map g) (collect rs)"
  by (induction rs rule: collect.induct) (auto split: sum.splits)

lemma pair_up_shift:
  "pair_up '': '' (json_key k) (map_sum id (shift n) r)
     = map_sum id (shift n) (pair_up '': '' (json_key k) r)"
  by (cases "json_key k"; cases r)
     (simp_all add: pair_up_def shift_id json_key_no_newline)

lemma json_enc_Suc:
  "json_enc indent (Suc level) t = map_sum id (shift (nat indent)) (json_enc indent level t)"
proof (induction indent level t rule: json_enc.induct)
  case (1 indent level)
  show ?case by simp
next
  case (2 indent level b)
  show ?case by simp
next
  case (3 indent level i)
  show ?case by (simp add: shift_id show_int_no_newline)
next
  case (4 indent level s)
  show ?case by (simp add: shift_id json_string_no_newline)
next
  case (5 indent level c s r)
  show ?case by (cases s) (simp_all add: shift_id json_string_no_newline)
next
  case (6 indent level k)
  show ?case by simp
next
  case (7 indent level xs)
  show ?case
  proof (cases "xs = []")
    case True
    then show ?thesis by simp
  next
    case False
    with "7.IH" have "map (json_enc indent (Suc (Suc level))) xs
        = map (map_sum id (shift (nat indent))) (map (json_enc indent (Suc level)) xs)"
      by (simp add: id_def)
    then have c: "collect (map (json_enc indent (Suc (Suc level))) xs)
        = map_sum id (map (shift (nat indent))) (collect (map (json_enc indent (Suc level)) xs))"
      by (simp only: collect_map_sum)
    show ?thesis
      using False
      by (cases "collect (map (json_enc indent (Suc level)) xs)")
         (simp_all add: c shift_join shift_newline_indent)
  qed
next
  case (8 indent level kvs)
  show ?case
  proof (cases "kvs = []")
    case True
    then show ?thesis by simp
  next
    case False
    let ?f = "\<lambda>l kv. pair_up '': '' (json_key (fst kv)) (json_enc indent l (snd kv))"
    from False "8.IH" have "map (?f (Suc (Suc level))) kvs
        = map (map_sum id (shift (nat indent))) (map (?f (Suc level)) kvs)"
      by (simp add: pair_up_shift [unfolded id_def] id_def)
    then have c: "collect (map (?f (Suc (Suc level))) kvs)
        = map_sum id (map (shift (nat indent))) (collect (map (?f (Suc level)) kvs))"
      by (simp only: collect_map_sum)
    show ?thesis
      using False
      by (cases "collect (map (?f (Suc level)) kvs)")
         (simp_all add: c shift_join shift_newline_indent)
  qed
qed

subsection \<open>Values that have no serialization\<close>

lemma collect_isl: "\<exists>r \<in> set rs. isl r \<Longrightarrow> isl (collect rs)"
  by (induction rs rule: collect.induct) (auto split: sum.splits)

lemma json_enc_list_isl:
  assumes "x \<in> set xs" "isl (json_enc indent (Suc level) x)"
  shows "isl (json_enc indent level (TList xs))"
proof -
  from assms have "isl (collect (map (json_enc indent (Suc level)) xs))"
    by (intro collect_isl) auto
  with assms(1) show ?thesis
    by (auto split: sum.splits)
qed

lemma json_enc_dict_isl:
  assumes "kv \<in> set kvs" "isl (json_key (fst kv)) \<or> isl (json_enc indent (Suc level) (snd kv))"
  shows "isl (json_enc indent level (TDict kvs))"
proof -
  from assms(2)
  have "isl (pair_up '': '' (json_key (fst kv)) (json_enc indent (Suc level) (snd kv)))"
    by (cases "json_key (fst kv)"; cases "json_enc indent (Suc level) (snd kv)")
       (simp_all add: pair_up_def)
  with assms(1)
  have "isl (collect (map (\<lambda>kv. pair_up '': '' (json_key (fst kv))
                                   (json_enc indent (Suc level) (snd kv))) kvs))"
    by (intro collect_isl) auto
  with assms(1) show ?thesis
    by (auto split: sum.splits)
qed

lemma dumps_list_contains_itself:
  assumes "a < length H" "H ! a = CList ys" "PRef a \<in> set ys"
  shows "isl (json_dumps H (PRef a) indent)"
proof -
  have "TCycle KList = view H [a] (PRef a)"
    using assms by simp
  from this assms(3) have mem: "TCycle KList \<in> set (map (view H [a]) ys)"
    unfolding set_map by (rule image_eqI)
  have "isl (json_enc indent 0 (TList (map (view H [a]) ys)))"
    by (rule json_enc_list_isl [OF mem]) simp
  with assms show ?thesis
    by (simp add: json_dumps_def)
qed

lemma dumps_dict_contains_itself:
  assumes "a < length H" "H ! a = CDict kvs" "(k, PRef a) \<in> set kvs"
  shows "isl (json_dumps H (PRef a) indent)"
proof -
  let ?f = "\<lambda>kv. (view H [a] (fst kv), view H [a] (snd kv))"
  have "(view H [a] k, TCycle KDict) = ?f (k, PRef a)"
    using assms by simp
  from this assms(3) have mem: "(view H [a] k, TCycle KDict) \<in> set (map ?f kvs)"
    unfolding set_map by (rule image_eqI)
  have "isl (json_enc indent 0 (TDict (map ?f kvs)))"
    by (rule json_enc_dict_isl [OF mem]) simp
  with assms show ?thesis
    by (simp add: json_dumps_def)
qed

lemma dumps_object_key:
  assumes "a < length H" "H ! a = CDict kvs" "(PObj c d as x r, v) \<in> set kvs"
  shows "isl (json_dumps H (PRef a) indent)"
proof -
  let ?f = "\<lambda>kv. (view H [a] (fst kv), view H [a] (snd kv))"
  have "(TObj c x r, view H [a] v) = ?f (PObj c d as x r, v)"
    by simp
  from this assms(3) have mem: "(TObj c x r, view H [a] v) \<in> set (map ?f kvs)"
    unfolding set_map by (rule image_eqI)
  have "isl (json_enc indent 0 (TDict (map ?f kvs)))"
    by (rule json_enc_dict_isl [OF mem]) simp
  with assms show ?thesis
    by (simp add: json_dumps_def)
qed

lemma dumps_raising_leaf:
  assumes "a < length H" "H ! a = CList ys" "PObj c d as (Inl e) r \<in> set ys"
  shows "isl (json_dumps H (PRef a) indent)"
proof -
  have "TObj c (Inl e) r = view H [a] (PObj c d as (Inl e) r)"
    by simp
  from this assms(3) have mem: "TObj c (Inl e) r \<in> set (map (view H [a]) ys)"
    unfolding set_map by (rule image_eqI)
  have "isl (json_enc indent 0 (TList (map (view H [a]) ys)))"
    by (rule json_enc_list_isl [OF mem]) simp
  with assms show ?thesis
    by (simp add: json_dumps_def)
qed

lemma fallback_returns:
  assumes "heap_ok H" "val_ok data" "is_dict_or_list H data" "isl (json_dumps H data indent)"
  shows "\<not> isl (py_str H data) \<and> fst (format_payload H data indent s) = py_str H data"
proof -
  from assms(4) obtain e where e: "json_dumps H data indent = Inl e"
    by (cases "json_dumps H data indent") auto
  with assms(1,2) have "is_Exception e"
    by (auto simp: json_dumps_def intro: json_enc_Exception view_ok)
  with e assms(3) py_str_ok [OF assms(1,2)] show ?thesis
    by (simp add: format_payload_apply formatted_eq)
qed

section \<open>The claims\<close>

text \<open>
  C1. The claim: for every input value, also an object whose conversion to text throws,
  \<^verbatim>\<open>_format_payload\<close> returns a string and never propagates an exception. The code at
  such an object: the \<^verbatim>\<open>try\<close> block calls \<^verbatim>\<open>str(data)\<close>, which raises; the handler
  catches the exception and calls \<^verbatim>\<open>str(data)\<close> again, which raises again, and this
  second exception reaches the caller.
\<close>

theorem format_payload_propagates:
  "fst (format_payload H
          (PObj ''Broken'' True [] (Inl (OtherException ''RuntimeError'' ''boom''))
             (Inr ''<Broken object>'')) 2 s)
   = Inl (OtherException ''RuntimeError'' ''boom'')"
  by (simp add: format_payload_apply formatted_eq py_str_def)

text \<open>
  C2, as stated: at both call sites the truncation marker includes the original length.
  In \<^verbatim>\<open>prepare_task\<close> a value of 501 characters under the key \<^verbatim>\<open>k\<close> is logged as its
  first 500 characters followed by the fixed text \<^verbatim>\<open>... [TRUNCATED]\<close>; the number 501
  appears nowhere in the line.
\<close>

theorem prepare_task_marker_has_no_length:
  "fst (format_payload [CDict [(PStr ''k'', PStr (replicate 501 CHR ''x''))]]
         (PStr (replicate 501 CHR ''x'')) 2 initial_state) = Inr (replicate 501 CHR ''x'')
   \<and> show_nat (length (replicate 501 CHR ''x'')) = ''501''
   \<and> rec_msg (log_records (snd (prepare_task
         [CDict [(PStr ''k'', PStr (replicate 501 CHR ''x''))]] (PRef 0) PNone
         initial_state)) ! 11)
       = ''      k: '' @ replicate 500 CHR ''x'' @ ''... [TRUNCATED]''
   \<and> \<not> sublist ''501'' (''      k: '' @ replicate 500 CHR ''x'' @ ''... [TRUNCATED]'')"
proof -
  let ?H = "[CDict [(PStr ''k'', PStr (replicate 501 CHR ''x''))]]"
  have v: "formatted ?H (PStr (replicate 501 CHR ''x'')) 2 = Inr (replicate 501 CHR ''x'')"
    by (simp add: formatted_eq py_str_def)
  have "heap_ok ?H"
    by (simp add: heap_ok_def)
  then have "\<not> isl (formatted ?H (PRef 0) 2)"
    by (rule formatted_ok) simp
  then obtain t where t: "formatted ?H (PRef 0) 2 = Inr t"
    by (cases "formatted ?H (PRef 0) 2") auto
  have "rec_msg (log_records (snd (prepare_task ?H (PRef 0) PNone initial_state)) ! 11)
      = ''      k: '' @ replicate 500 CHR ''x'' @ ''... [TRUNCATED]''"
    by (simp add: prepare_task_def breakdown_entry_def fmt_def py_if_def cell_def
        format_payload_apply v t log_and_print_apply initial_state_def py_str_def
        create_text_part_def SamTask_def)
  moreover have "show_nat (length (replicate 501 CHR ''x'')) = ''501''"
    by (simp add: show_nat.simps digit_char_def)
  moreover have "\<not> sublist ''501'' (''      k: '' @ replicate 500 CHR ''x'' @ ''... [TRUNCATED]'')"
  proof
    assume "sublist ''501'' (''      k: '' @ replicate 500 CHR ''x'' @ ''... [TRUNCATED]'')"
    then have "set ''501'' \<subseteq> set (''      k: '' @ replicate 500 CHR ''x'' @ ''... [TRUNCATED]'')"
      by (rule set_mono_sublist)
    then show False by simp
  qed
  ultimately show ?thesis
    using v by (simp add: format_payload_apply)
qed

text \<open>
  C2, amended. When the formatted value is longer than the threshold:
  the breakdown line of \<^verbatim>\<open>prepare_task\<close> is the key, then exactly 500 characters of the
  value, then the fixed marker \<^verbatim>\<open>... [TRUNCATED]\<close>, which carries no length;
  \<^verbatim>\<open>handle_update\<close> logs a header \<^verbatim>\<open>name (truncated):\<close>, then exactly 2000 characters of
  the value followed by \<^verbatim>\<open>...\<close>, then a line with the original length.
\<close>

theorem truncation_at_both_sites:
  assumes "fst (format_payload H v 2 s) = Inr t"
  shows "(500 < length t \<and> py_str H k = Inr key \<longrightarrow>
            fst (breakdown_entry H (k, v) s) = Inr ()
            \<and> new_records s (snd (breakdown_entry H (k, v) s))
                = [info (''      '' @ key @ '': '' @ take 500 t @ ''... [TRUNCATED]'')]
            \<and> length (take 500 t) = 500)
    \<and> (2000 < length t \<and> \<not> prefix ''_'' name \<longrightarrow>
            fst (update_detail H (name, v) s) = Inr ()
            \<and> new_records s (snd (update_detail H (name, v) s))
                = [info (''      '' @ name @ '' (truncated):''),
                   info (''        '' @ take 2000 t @ ''...''),
                   info (''        [Total length: '' @ show_nat (length t) @ '' chars]'')]
            \<and> length (take 2000 t) = 2000)"
proof -
  from assms have f: "formatted H v 2 = Inr t"
    by (simp add: format_payload_apply)
  show ?thesis
    by (simp add: breakdown_entry_def update_detail_def py_if_def fmt_def format_payload_apply f
        log_and_print_apply new_records_def info_def)
qed

theorem truncation_at_both_sites_witness:
  "fst (format_payload [] (PStr (replicate 2001 CHR ''x'')) 2 initial_state)
     = Inr (replicate 2001 CHR ''x'')
   \<and> 500 < length (replicate 2001 CHR ''x'')
   \<and> py_str [] (PStr ''k'') = Inr ''k''
   \<and> new_records initial_state
        (snd (breakdown_entry [] (PStr ''k'', PStr (replicate 2001 CHR ''x'')) initial_state))
       = [info (''      k: '' @ take 500 (replicate 2001 CHR ''x'') @ ''... [TRUNCATED]'')]
   \<and> 2000 < length (replicate 2001 CHR ''x'')
   \<and> \<not> prefix ''_'' ''text''
   \<and> new_records initial_state
        (snd (update_detail [] (''text'', PStr (replicate 2001 CHR ''x'')) initial_state))
       = [info (''      text (truncated):''),
          info (''        '' @ take 2000 (replicate 2001 CHR ''x'') @ ''...''),
          info (''        [Total length: '' @ show_nat (length (replicate 2001 CHR ''x''))
                @ '' chars]'')]"
proof -
  have f: "fst (format_payload [] (PStr (replicate 2001 CHR ''x'')) 2 initial_state)
      = Inr (replicate 2001 CHR ''x'')"
    by (simp add: format_payload_apply formatted_eq py_str_def)
  have k: "py_str [] (PStr ''k'') = Inr ''k''"
    by (simp add: py_str_def)
  have p: "\<not> prefix ''_'' ''text''"
    by simp
  from truncation_at_both_sites [OF f, of "PStr ''k''" "''k''" "''text''"] f k p
  show ?thesis by simp
qed

text \<open>
  C3, as stated: for every value that is a mapping or a sequence the result is its
  structured serialization. A list that contains itself is a list, it has no
  serialization (\<^verbatim>\<open>json.dumps\<close> raises \<^verbatim>\<open>ValueError\<close>), and the result is the text
  \<^verbatim>\<open>[[...]]\<close> of \<^verbatim>\<open>str\<close>.
\<close>

theorem format_payload_cycle:
  "is_dict_or_list [CList [PRef 0]] (PRef 0)
   \<and> json_dumps [CList [PRef 0]] (PRef 0) 2 = Inl (ValueError ''Circular reference detected'')
   \<and> py_str [CList [PRef 0]] (PRef 0) = Inr ''[[...]]''
   \<and> fst (format_payload [CList [PRef 0]] (PRef 0) 2 initial_state) = Inr ''[[...]]''"
  by (simp add: format_payload_apply formatted_eq json_dumps_def py_str_def cell_def)

text \<open>
  C3, amended. For a dictionary or a list the result is the text of
  \<^verbatim>\<open>json.dumps(data, indent=indent, default=str)\<close> whenever that call returns. In that
  text a non-empty list or dictionary at nesting level \<open>level\<close> puts each item on a line
  of its own after \<open>indent * (level + 1)\<close> spaces and its closing bracket after
  \<open>indent * level\<close> spaces, and a value serialized one level deeper is the same text with
  \<open>indent\<close> more spaces after every newline; a leaf object is the JSON string of what its
  \<^verbatim>\<open>__str__\<close> returns. A list or dictionary that contains itself, a dictionary with an
  object as key, and a list with a leaf whose \<^verbatim>\<open>__str__\<close> raises have no serialization;
  when the serialization fails with an exception derived from \<^verbatim>\<open>Exception\<close> and
  \<^verbatim>\<open>str(data)\<close> returns, the result is the text of \<^verbatim>\<open>str(data)\<close>, which is always so
  when every object met has a \<^verbatim>\<open>__str__\<close> and a \<^verbatim>\<open>__repr__\<close> that return. For every
  other value whose \<^verbatim>\<open>str\<close> returns the result is that text: the string itself, the
  decimal digits of an integer, \<^verbatim>\<open>True\<close>, \<^verbatim>\<open>False\<close>, \<^verbatim>\<open>None\<close>.
\<close>

theorem format_payload_serializes:
  "(is_dict_or_list H data \<and> json_dumps H data indent = Inr t
      \<longrightarrow> fst (format_payload H data indent s) = Inr t)
   \<and> json_dumps H data indent = json_enc indent 0 (view H [] data)
   \<and> (xs \<noteq> [] \<and> collect (map (json_enc indent (Suc level)) xs) = Inr ss
      \<longrightarrow> json_enc indent level (TList xs)
            = Inr (''['' @ newline_indent indent (Suc level)
                   @ join ('','' @ newline_indent indent (Suc level)) ss
                   @ newline_indent indent level @ '']''))
   \<and> (kvs \<noteq> []
       \<and> collect (map (\<lambda>kv. pair_up '': '' (json_key (fst kv))
                                (json_enc indent (Suc level) (snd kv))) kvs) = Inr ss
      \<longrightarrow> json_enc indent level (TDict kvs)
            = Inr (''{'' @ newline_indent indent (Suc level)
                   @ join ('','' @ newline_indent indent (Suc level)) ss
                   @ newline_indent indent level @ ''}''))
   \<and> newline_indent indent level = CHR 0x0A # replicate (nat indent * level) CHR '' ''
   \<and> json_enc indent (Suc level) tr = map_sum id (shift (nat indent)) (json_enc indent level tr)
   \<and> json_enc indent level (view H stk (PObj c d as (Inr x) r)) = Inr (json_string x)
   \<and> (is_dict_or_list H data \<and> json_dumps H data indent = Inl e \<and> is_Exception e
       \<and> py_str H data = Inr u
      \<longrightarrow> fst (format_payload H data indent s) = Inr u)
   \<and> (a < length H \<and> H ! a = CList ys \<and> PRef a \<in> set ys
      \<longrightarrow> isl (json_dumps H (PRef a) indent))
   \<and> (a < length H \<and> H ! a = CDict ps \<and> (k, PRef a) \<in> set ps
      \<longrightarrow> isl (json_dumps H (PRef a) indent))
   \<and> (a < length H \<and> H ! a = CDict ps \<and> (PObj kc kd kas kx kr, v) \<in> set ps
      \<longrightarrow> isl (json_dumps H (PRef a) indent))
   \<and> (a < length H \<and> H ! a = CList ys \<and> PObj lc ld las (Inl le) lr \<in> set ys
      \<longrightarrow> isl (json_dumps H (PRef a) indent))
   \<and> (heap_ok H \<and> val_ok data \<and> is_dict_or_list H data \<and> isl (json_dumps H data indent)
      \<longrightarrow> \<not> isl (py_str H data) \<and> fst (format_payload H data indent s) = py_str H data)
   \<and> (\<not> is_dict_or_list H data \<and> py_str H data = Inr u
      \<longrightarrow> fst (format_payload H data indent s) = Inr u)
   \<and> fst (format_payload H (PStr w) indent s) = Inr w
   \<and> fst (format_payload H (PInt i) indent s) = Inr (show_int i)
   \<and> fst (format_payload H (PBool b) indent s) = Inr (if b then ''True'' else ''False'')
   \<and> fst (format_payload H PNone indent s) = Inr ''None''"
proof -
  have "is_dict_or_list H data \<and> json_dumps H data indent = Inr t
      \<longrightarrow> fst (format_payload H data indent s) = Inr t"
    by (simp add: format_payload_apply formatted_eq)
  moreover have "json_dumps H data indent = json_enc indent 0 (view H [] data)"
    by (simp add: json_dumps_def)
  moreover have "xs \<noteq> [] \<and> collect (map (json_enc indent (Suc level)) xs) = Inr ss
      \<longrightarrow> json_enc indent level (TList xs)
            = Inr (''['' @ newline_indent indent (Suc level)
                   @ join ('','' @ newline_indent indent (Suc level)) ss
                   @ newline_indent indent level @ '']'')"
    by simp
  moreover have "kvs \<noteq> []
       \<and> collect (map (\<lambda>kv. pair_up '': '' (json_key (fst kv))
                                (json_enc indent (Suc level) (snd kv))) kvs) = Inr ss
      \<longrightarrow> json_enc indent level (TDict kvs)
            = Inr (''{'' @ newline_indent indent (Suc level)
                   @ join ('','' @ newline_indent indent (Suc level)) ss
                   @ newline_indent indent level @ ''}'')"
    by simp
  moreover have "newline_indent indent level = CHR 0x0A # replicate (nat indent * level) CHR '' ''"
    by (simp add: newline_indent_def)
  moreover have "json_enc indent (Suc level) tr
      = map_sum id (shift (nat indent)) (json_enc indent level tr)"
    by (rule json_enc_Suc)
  moreover have "json_enc indent level (view H stk (PObj c d as (Inr x) r)) = Inr (json_string x)"
    by simp
  moreover have "is_dict_or_list H data \<and> json_dumps H data indent = Inl e \<and> is_Exception e
       \<and> py_str H data = Inr u
      \<longrightarrow> fst (format_payload H data indent s) = Inr u"
    by (simp add: format_payload_apply formatted_eq)
  moreover have "a < length H \<and> H ! a = CList ys \<and> PRef a \<in> set ys
      \<longrightarrow> isl (json_dumps H (PRef a) indent)"
    using dumps_list_contains_itself by blast
  moreover have "a < length H \<and> H ! a = CDict ps \<and> (k, PRef a) \<in> set ps
      \<longrightarrow> isl (json_dumps H (PRef a) indent)"
    using dumps_dict_contains_itself by blast
  moreover have "a < length H \<and> H ! a = CDict ps \<and> (PObj kc kd kas kx kr, v) \<in> set ps
      \<longrightarrow> isl (json_dumps H (PRef a) indent)"
    using dumps_object_key by blast
  moreover have "a < length H \<and> H ! a = CList ys \<and> PObj lc ld las (Inl le) lr \<in> set ys
      \<longrightarrow> isl (json_dumps H (PRef a) indent)"
    using dumps_raising_leaf by blast
  moreover have "heap_ok H \<and> val_ok data \<and> is_dict_or_list H data
       \<and> isl (json_dumps H data indent)
      \<longrightarrow> \<not> isl (py_str H data) \<and> fst (format_payload H data indent s) = py_str H data"
    using fallback_returns by blast
  moreover have "\<not> is_dict_or_list H data \<and> py_str H data = Inr u
      \<longrightarrow> fst (format_payload H data indent s) = Inr u"
    by (simp add: format_payload_apply formatted_eq)
  moreover have "fst (format_payload H (PStr w) indent s) = Inr w"
    by (simp add: format_payload_apply formatted_eq py_str_def)
  moreover have "fst (format_payload H (PInt i) indent s) = Inr (show_int i)"
    by (simp add: format_payload_apply formatted_eq py_str_def)
  moreover have "fst (format_payload H (PBool b) indent s)
      = Inr (if b then ''True'' else ''False'')"
    by (simp add: format_payload_apply formatted_eq py_str_def)
  moreover have "fst (format_payload H PNone indent s) = Inr ''None''"
    by (simp add: format_payload_apply formatted_eq py_str_def)
  ultimately show ?thesis
    by (intro conjI)
qed

theorem format_payload_serializes_witness:
  "is_dict_or_list
      [CList [PObj ''Leaf'' True [] (Inr ''leaf'') (Inr ''<Leaf>''), PRef 1], CList [PInt 7]]
      (PRef 0)
   \<and> fst (format_payload
        [CList [PObj ''Leaf'' True [] (Inr ''leaf'') (Inr ''<Leaf>''), PRef 1], CList [PInt 7]]
        (PRef 0) 4 initial_state)
       = Inr (''['' @ [CHR 0x0A]
              @ ''    '' @ [CHR 0x22] @ ''leaf'' @ [CHR 0x22] @ '','' @ [CHR 0x0A]
              @ ''    ['' @ [CHR 0x0A]
              @ ''        7'' @ [CHR 0x0A]
              @ ''    ]'' @ [CHR 0x0A]
              @ '']'')
   \<and> json_enc 2 0 (TList [TInt 1, TInt 2])
       = Inr (''['' @ [CHR 0x0A] @ ''  1,'' @ [CHR 0x0A] @ ''  2'' @ [CHR 0x0A] @ '']'')
   \<and> json_enc 2 0 (TDict [(TStr ''a'', TInt 1)])
       = Inr (''{'' @ [CHR 0x0A] @ ''  '' @ [CHR 0x22] @ ''a'' @ [CHR 0x22] @ '': 1''
              @ [CHR 0x0A] @ ''}'')
   \<and> json_enc 2 (Suc 0) (TList [TInt 1, TInt 2])
       = Inr (''['' @ [CHR 0x0A] @ ''    1,'' @ [CHR 0x0A] @ ''    2'' @ [CHR 0x0A] @ ''  ]'')
   \<and> is_Exception (OtherException ''RuntimeError'' ''boom'')
   \<and> json_dumps
        [CList [PObj ''Bad'' True [] (Inl (OtherException ''RuntimeError'' ''boom''))
                  (Inr ''<Bad>'')]] (PRef 0) 2
       = Inl (OtherException ''RuntimeError'' ''boom'')
   \<and> fst (format_payload
        [CList [PObj ''Bad'' True [] (Inl (OtherException ''RuntimeError'' ''boom''))
                  (Inr ''<Bad>'')]] (PRef 0) 2 initial_state)
       = Inr ''[<Bad>]''
   \<and> heap_ok [CList [PRef 0]]
   \<and> isl (json_dumps [CList [PRef 0]] (PRef 0) 2)
   \<and> fst (format_payload [CList [PRef 0]] (PRef 0) 2 initial_state) = Inr ''[[...]]''
   \<and> heap_ok [CDict [(PStr ''me'', PRef 0)]]
   \<and> isl (json_dumps [CDict [(PStr ''me'', PRef 0)]] (PRef 0) 2)
   \<and> fst (format_payload [CDict [(PStr ''me'', PRef 0)]] (PRef 0) 2 initial_state)
       = Inr (''{'' @ [CHR 0x27] @ ''me'' @ [CHR 0x27] @ '': {...}}'')
   \<and> heap_ok [CDict [(PObj ''Key'' True [] (Inr ''k'') (Inr ''<Key>''), PInt 1)]]
   \<and> isl (json_dumps [CDict [(PObj ''Key'' True [] (Inr ''k'') (Inr ''<Key>''), PInt 1)]]
        (PRef 0) 2)
   \<and> fst (format_payload [CDict [(PObj ''Key'' True [] (Inr ''k'') (Inr ''<Key>''), PInt 1)]]
        (PRef 0) 2 initial_state) = Inr ''{<Key>: 1}''
   \<and> \<not> is_dict_or_list [] (PObj ''Leaf'' True [] (Inr ''leaf'') (Inr ''<Leaf>''))
   \<and> fst (format_payload [] (PObj ''Leaf'' True [] (Inr ''leaf'') (Inr ''<Leaf>'')) 2
        initial_state) = Inr ''leaf''"
proof -
  let ?leaf = "PObj ''Leaf'' True [] (Inr ''leaf'') (Inr ''<Leaf>'')"
  let ?bad = "PObj ''Bad'' True [] (Inl (OtherException ''RuntimeError'' ''boom''))
      (Inr ''<Bad>'')"
  let ?key = "PObj ''Key'' True [] (Inr ''k'') (Inr ''<Key>'')"
  let ?H1 = "[CList [?leaf, PRef 1], CList [PInt 7]]"
  let ?T1 = "''['' @ [CHR 0x0A]
              @ ''    '' @ [CHR 0x22] @ ''leaf'' @ [CHR 0x22] @ '','' @ [CHR 0x0A]
              @ ''    ['' @ [CHR 0x0A]
              @ ''        7'' @ [CHR 0x0A]
              @ ''    ]'' @ [CHR 0x0A]
              @ '']''"
  let ?D = "[CDict [(PStr ''me'', PRef 0)]]"
  let ?K = "[CDict [(?key, PInt 1)]]"
  note from_2 = format_payload_serializes [THEN conjunct2]
  note from_3 = from_2 [THEN conjunct2]
  note from_4 = from_3 [THEN conjunct2]
  note from_6 = from_4 [THEN conjunct2, THEN conjunct2]
  note from_8 = from_6 [THEN conjunct2, THEN conjunct2]
  note from_9 = from_8 [THEN conjunct2]
  note from_10 = from_9 [THEN conjunct2]
  note from_11 = from_10 [THEN conjunct2]
  note from_12 = from_11 [THEN conjunct2]
  note from_13 = from_12 [THEN conjunct2]
  note from_14 = from_13 [THEN conjunct2]
  note serialized = format_payload_serializes [THEN conjunct1, rule_format]
  note list_rule = from_3 [THEN conjunct1, rule_format]
  note dict_rule = from_4 [THEN conjunct1, rule_format]
  note deeper_rule = from_6 [THEN conjunct1]
  note fallback_rule = from_8 [THEN conjunct1, rule_format]
  note self_list_rule = from_9 [THEN conjunct1, rule_format]
  note self_dict_rule = from_10 [THEN conjunct1, rule_format]
  note object_key_rule = from_11 [THEN conjunct1, rule_format]
  note convertible_rule = from_13 [THEN conjunct1, rule_format, THEN conjunct2]
  note other_rule = from_14 [THEN conjunct1, rule_format]
  have nested_list: "is_dict_or_list ?H1 (PRef 0)"
    by (simp add: cell_def)
  have nested_text: "json_dumps ?H1 (PRef 0) 4 = Inr ?T1"
    by code_simp
  have nested: "fst (format_payload ?H1 (PRef 0) 4 initial_state) = Inr ?T1"
    by (rule serialized [OF conjI [OF nested_list nested_text]])
  have items: "[TInt 1, TInt 2] \<noteq> []
      \<and> collect (map (json_enc 2 (Suc 0)) [TInt 1, TInt 2]) = Inr [''1'', ''2'']"
    by code_simp
  have list_text: "''['' @ newline_indent 2 (Suc 0)
      @ join ('','' @ newline_indent 2 (Suc 0)) [''1'', ''2''] @ newline_indent 2 0 @ '']''
      = ''['' @ [CHR 0x0A] @ ''  1,'' @ [CHR 0x0A] @ ''  2'' @ [CHR 0x0A] @ '']''"
    by code_simp
  have list_layout: "json_enc 2 0 (TList [TInt 1, TInt 2])
      = Inr (''['' @ [CHR 0x0A] @ ''  1,'' @ [CHR 0x0A] @ ''  2'' @ [CHR 0x0A] @ '']'')"
    unfolding list_text [symmetric] by (rule list_rule [OF items])
  have members: "[(TStr ''a'', TInt 1)] \<noteq> []
      \<and> collect (map (\<lambda>kv. pair_up '': '' (json_key (fst kv)) (json_enc 2 (Suc 0) (snd kv)))
           [(TStr ''a'', TInt 1)]) = Inr [[CHR 0x22] @ ''a'' @ [CHR 0x22] @ '': 1'']"
    by code_simp
  have dict_text: "''{'' @ newline_indent 2 (Suc 0)
      @ join ('','' @ newline_indent 2 (Suc 0)) [[CHR 0x22] @ ''a'' @ [CHR 0x22] @ '': 1'']
      @ newline_indent 2 0 @ ''}''
      = ''{'' @ [CHR 0x0A] @ ''  '' @ [CHR 0x22] @ ''a'' @ [CHR 0x22] @ '': 1''
        @ [CHR 0x0A] @ ''}''"
    by code_simp
  have dict_layout: "json_enc 2 0 (TDict [(TStr ''a'', TInt 1)])
      = Inr (''{'' @ [CHR 0x0A] @ ''  '' @ [CHR 0x22] @ ''a'' @ [CHR 0x22] @ '': 1''
             @ [CHR 0x0A] @ ''}'')"
    unfolding dict_text [symmetric] by (rule dict_rule [OF members])
  have deeper_text: "map_sum id (shift (nat 2)) (json_enc 2 0 (TList [TInt 1, TInt 2]))
      = Inr (''['' @ [CHR 0x0A] @ ''    1,'' @ [CHR 0x0A] @ ''    2'' @ [CHR 0x0A] @ ''  ]'')"
    by code_simp
  have deeper: "json_enc 2 (Suc 0) (TList [TInt 1, TInt 2])
      = Inr (''['' @ [CHR 0x0A] @ ''    1,'' @ [CHR 0x0A] @ ''    2'' @ [CHR 0x0A] @ ''  ]'')"
    by (rule trans [OF deeper_rule deeper_text])
  have bad_list: "is_dict_or_list [CList [?bad]] (PRef 0)"
    by (simp add: cell_def)
  have bad_dumps: "json_dumps [CList [?bad]] (PRef 0) 2
      = Inl (OtherException ''RuntimeError'' ''boom'')"
    by (simp add: json_dumps_def)
  have bad_exception: "is_Exception (OtherException ''RuntimeError'' ''boom'')"
    by simp
  have bad_str: "py_str [CList [?bad]] (PRef 0) = Inr ''[<Bad>]''"
    by (simp add: py_str_def)
  have bad: "fst (format_payload [CList [?bad]] (PRef 0) 2 initial_state) = Inr ''[<Bad>]''"
    by (rule fallback_rule
        [OF conjI [OF bad_list conjI [OF bad_dumps conjI [OF bad_exception bad_str]]]])
  have self_heap: "heap_ok [CList [PRef 0]]"
    by (simp add: heap_ok_def)
  have self_list: "is_dict_or_list [CList [PRef 0]] (PRef 0)"
    by (simp add: cell_def)
  have val: "val_ok (PRef 0)"
    by simp
  have self_member: "0 < length [CList [PRef 0]] \<and> [CList [PRef 0]] ! 0 = CList [PRef 0]
      \<and> PRef 0 \<in> set [PRef 0]"
    by simp
  have self_fails: "isl (json_dumps [CList [PRef 0]] (PRef 0) 2)"
    by (rule self_list_rule [OF self_member])
  have self_str: "py_str [CList [PRef 0]] (PRef 0) = Inr ''[[...]]''"
    by (simp add: py_str_def)
  have self_result: "fst (format_payload [CList [PRef 0]] (PRef 0) 2 initial_state)
      = Inr ''[[...]]''"
    by (rule trans [OF convertible_rule
          [OF conjI [OF self_heap conjI [OF val conjI [OF self_list self_fails]]]] self_str])
  have me_heap: "heap_ok ?D"
    by (simp add: heap_ok_def)
  have me_dict: "is_dict_or_list ?D (PRef 0)"
    by (simp add: cell_def)
  have me_member: "0 < length ?D \<and> ?D ! 0 = CDict [(PStr ''me'', PRef 0)]
      \<and> (PStr ''me'', PRef 0) \<in> set [(PStr ''me'', PRef 0)]"
    by simp
  have me_fails: "isl (json_dumps ?D (PRef 0) 2)"
    by (rule self_dict_rule [OF me_member])
  have me_str: "py_str ?D (PRef 0)
      = Inr (''{'' @ [CHR 0x27] @ ''me'' @ [CHR 0x27] @ '': {...}}'')"
    by code_simp
  have me_result: "fst (format_payload ?D (PRef 0) 2 initial_state)
      = Inr (''{'' @ [CHR 0x27] @ ''me'' @ [CHR 0x27] @ '': {...}}'')"
    by (rule trans [OF convertible_rule
          [OF conjI [OF me_heap conjI [OF val conjI [OF me_dict me_fails]]]] me_str])
  have key_heap: "heap_ok ?K"
    by (simp add: heap_ok_def)
  have key_dict: "is_dict_or_list ?K (PRef 0)"
    by (simp add: cell_def)
  have key_member: "0 < length ?K \<and> ?K ! 0 = CDict [(?key, PInt 1)]
      \<and> (?key, PInt 1) \<in> set [(?key, PInt 1)]"
    by simp
  have key_fails: "isl (json_dumps ?K (PRef 0) 2)"
    by (rule object_key_rule [OF key_member])
  have key_str: "py_str ?K (PRef 0) = Inr ''{<Key>: 1}''"
    by code_simp
  have key_result: "fst (format_payload ?K (PRef 0) 2 initial_state) = Inr ''{<Key>: 1}''"
    by (rule trans [OF convertible_rule
          [OF conjI [OF key_heap conjI [OF val conjI [OF key_dict key_fails]]]] key_str])
  have leaf_scalar: "\<not> is_dict_or_list [] ?leaf"
    by simp
  have leaf_str: "py_str [] ?leaf = Inr ''leaf''"
    by (simp add: py_str_def)
  have leaf: "fst (format_payload [] ?leaf 2 initial_state) = Inr ''leaf''"
    by (rule other_rule [OF conjI [OF leaf_scalar leaf_str]])
  from nested_list nested list_layout dict_layout deeper bad_exception bad_dumps bad
    self_heap self_fails self_result me_heap me_fails me_result
    key_heap key_fails key_result leaf_scalar leaf
  show ?thesis
    by (intro conjI)
qed

text \<open>
  C4, as stated: the hook logs the available context identifiers and then re-raises the
  error or passes it through. Called with a \<^verbatim>\<open>KeyError\<close> and a context whose session,
  task and user identifiers are \<^verbatim>\<open>s-1\<close>, \<^verbatim>\<open>t-1\<close> and \<^verbatim>\<open>u-42\<close>, \<^verbatim>\<open>on_error\<close> returns
  \<^verbatim>\<open>None\<close>: nothing is raised and the error is not handed back. The user identifier is
  in none of the nine records.
\<close>

theorem on_error_returns_none:
  "fst (on_error [] (PObj ''KeyError'' True [] (Inr ''missing key'') (Inr ''KeyError()''))
        (PObj ''ResponseContext'' True
           [(''session_id'', PStr ''s-1''), (''task_id'', PStr ''t-1''),
            (''user_id'', PStr ''u-42'')] (Inr ''ctx'') (Inr ''ctx'')) initial_state) = Inr ()
   \<and> map rec_msg (new_records initial_state
        (snd (on_error [] (PObj ''KeyError'' True [] (Inr ''missing key'') (Inr ''KeyError()''))
           (PObj ''ResponseContext'' True
              [(''session_id'', PStr ''s-1''), (''task_id'', PStr ''t-1''),
               (''user_id'', PStr ''u-42'')] (Inr ''ctx'') (Inr ''ctx'')) initial_state)))
       = [[CHR 0x0A] @ SEPARATOR_THICK,
          ''    ERROR IN GATEWAY PROCESSING'',
          SEPARATOR_THIN,
          ''    Error Type: KeyError'',
          ''    Error Message: missing key'',
          ''    Context Session ID: s-1'',
          ''    Context Task ID: t-1'',
          SEPARATOR_THICK @ [CHR 0x0A],
          ''Full traceback:'']
   \<and> getattr (PObj ''ResponseContext'' True
          [(''session_id'', PStr ''s-1''), (''task_id'', PStr ''t-1''),
           (''user_id'', PStr ''u-42'')] (Inr ''ctx'') (Inr ''ctx'')) ''user_id'' (PStr ''N/A'')
       = PStr ''u-42''
   \<and> \<not> sublist ''u-42'' (console_text (new_records initial_state
        (snd (on_error [] (PObj ''KeyError'' True [] (Inr ''missing key'') (Inr ''KeyError()''))
           (PObj ''ResponseContext'' True
              [(''session_id'', PStr ''s-1''), (''task_id'', PStr ''t-1''),
               (''user_id'', PStr ''u-42'')] (Inr ''ctx'') (Inr ''ctx'')) initial_state))))"
proof -
  let ?e = "PObj ''KeyError'' True [] (Inr ''missing key'') (Inr ''KeyError()'')"
  let ?c = "PObj ''ResponseContext'' True
      [(''session_id'', PStr ''s-1''), (''task_id'', PStr ''t-1''),
       (''user_id'', PStr ''u-42'')] (Inr ''ctx'') (Inr ''ctx'')"
  let ?msgs = "[[CHR 0x0A] @ SEPARATOR_THICK,
          ''    ERROR IN GATEWAY PROCESSING'',
          SEPARATOR_THIN,
          ''    Error Type: KeyError'',
          ''    Error Message: missing key'',
          ''    Context Session ID: s-1'',
          ''    Context Task ID: t-1'',
          SEPARATOR_THICK @ [CHR 0x0A],
          ''Full traceback:'']"
  have run: "fst (on_error [] ?e ?c initial_state) = Inr ()"
    by (simp add: on_error_def py_if_def fmt_def log_and_print_apply logger_call_def
        py_str_def getattr_def)
  have recs: "map rec_msg (new_records initial_state (snd (on_error [] ?e ?c initial_state)))
      = ?msgs"
    by (simp add: on_error_def py_if_def fmt_def log_and_print_apply logger_call_def
        new_records_def py_str_def getattr_def initial_state_def)
  have user: "getattr ?c ''user_id'' (PStr ''N/A'') = PStr ''u-42''"
    by (simp add: getattr_def)
  have text_eq: "console_text rs = concat (map (\<lambda>m. m @ [CHR 0x0A]) (map rec_msg rs))" for rs
    by (simp add: console_text_def comp_def)
  have "CHR ''4'' \<notin> set (console_text (new_records initial_state
      (snd (on_error [] ?e ?c initial_state))))"
    unfolding text_eq recs by (simp add: SEPARATOR_THICK_def SEPARATOR_THIN_def)
  then have "\<not> sublist ''u-42'' (console_text (new_records initial_state
      (snd (on_error [] ?e ?c initial_state))))"
    by (auto dest: set_mono_sublist)
  with run recs user show ?thesis by simp
qed

text \<open>
  C4, amended: given an error whose \<^verbatim>\<open>str\<close> returns, and a context whose session and
  task identifiers (where it has them) convert to text, \<^verbatim>\<open>on_error\<close> logs and returns
  \<^verbatim>\<open>None\<close>: it does not raise the error again and hands nothing back. Every record it
  adds has severity \<^verbatim>\<open>ERROR\<close>; the records are the heading, the type name of the error,
  its message, for a truthy context its session and task identifiers (\<^verbatim>\<open>N/A\<close> for a
  missing one) and no other identifier, the closing rule, and \<^verbatim>\<open>Full traceback:\<close> with
  the exception information.
\<close>

theorem on_error_logs_and_returns:
  assumes "py_str H error = Inr msg"
    and "py_str H (getattr context ''session_id'' (PStr ''N/A'')) = Inr sid"
    and "py_str H (getattr context ''task_id'' (PStr ''N/A'')) = Inr tid"
  shows "fst (on_error H error context s) = Inr ()
    \<and> new_records s (snd (on_error H error context s))
        = map err
            ([[CHR 0x0A] @ SEPARATOR_THICK,
              ''    ERROR IN GATEWAY PROCESSING'',
              SEPARATOR_THIN,
              ''    Error Type: '' @ type_name H error,
              ''    Error Message: '' @ msg]
             @ (if truthy H context
                then [''    Context Session ID: '' @ sid, ''    Context Task ID: '' @ tid]
                else [])
             @ [SEPARATOR_THICK @ [CHR 0x0A]])
          @ [\<lparr>rec_level = ERROR, rec_msg = ''Full traceback:'', rec_exc_info = True\<rparr>]
    \<and> list_all (\<lambda>r. rec_level r = ERROR) (new_records s (snd (on_error H error context s)))"
  using assms
  by (simp add: on_error_def py_if_def fmt_def log_and_print_apply logger_call_def
      new_records_def err_def)

theorem on_error_logs_and_returns_witness:
  "py_str [] (PObj ''KeyError'' True [] (Inr ''missing key'') (Inr ''KeyError()''))
     = Inr ''missing key''
   \<and> py_str [] (getattr (PObj ''ResponseContext'' True [(''session_id'', PStr ''s-1'')]
        (Inr ''ctx'') (Inr ''ctx'')) ''session_id'' (PStr ''N/A'')) = Inr ''s-1''
   \<and> py_str [] (getattr (PObj ''ResponseContext'' True [(''session_id'', PStr ''s-1'')]
        (Inr ''ctx'') (Inr ''ctx'')) ''task_id'' (PStr ''N/A'')) = Inr ''N/A''
   \<and> fst (on_error [] (PObj ''KeyError'' True [] (Inr ''missing key'') (Inr ''KeyError()''))
        (PObj ''ResponseContext'' True [(''session_id'', PStr ''s-1'')] (Inr ''ctx'')
           (Inr ''ctx'')) initial_state) = Inr ()
   \<and> map rec_msg (new_records initial_state
        (snd (on_error [] (PObj ''KeyError'' True [] (Inr ''missing key'') (Inr ''KeyError()''))
           (PObj ''ResponseContext'' True [(''session_id'', PStr ''s-1'')] (Inr ''ctx'')
              (Inr ''ctx'')) initial_state)))
       = [[CHR 0x0A] @ SEPARATOR_THICK,
          ''    ERROR IN GATEWAY PROCESSING'',
          SEPARATOR_THIN,
          ''    Error Type: KeyError'',
          ''    Error Message: missing key'',
          ''    Context Session ID: s-1'',
          ''    Context Task ID: N/A'',
          SEPARATOR_THICK @ [CHR 0x0A],
          ''Full traceback:'']"
proof -
  let ?e = "PObj ''KeyError'' True [] (Inr ''missing key'') (Inr ''KeyError()'')"
  let ?c = "PObj ''ResponseContext'' True [(''session_id'', PStr ''s-1'')] (Inr ''ctx'')
      (Inr ''ctx'')"
  have a: "py_str [] ?e = Inr ''missing key''"
    by (simp add: py_str_def)
  have b: "py_str [] (getattr ?c ''session_id'' (PStr ''N/A'')) = Inr ''s-1''"
    by (simp add: py_str_def getattr_def)
  have c: "py_str [] (getattr ?c ''task_id'' (PStr ''N/A'')) = Inr ''N/A''"
    by (simp add: py_str_def getattr_def)
  from on_error_logs_and_returns [OF a b c, of initial_state] a b c
  show ?thesis by (simp add: err_def)
qed




text \<open>
  C6. Formatting the mapping \<^verbatim>\<open>{"a": 1, "b": [1, 2, 3]}\<close> with indent 2 gives the text
  \<open>example_text\<close>, which contains both keys as JSON strings, and parsing that text gives
  the mapping back.
\<close>

theorem format_payload_round_trip:
  "fst (format_payload example_heap (PRef 0) 2 s) = Inr example_text
   \<and> sublist (json_string ''a'') example_text
   \<and> sublist (json_string ''b'') example_text
   \<and> json_loads example_text = Some (view example_heap [] (PRef 0))
   \<and> view example_heap [] (PRef 0)
       = TDict [(TStr ''a'', TInt 1), (TStr ''b'', TList [TInt 1, TInt 2, TInt 3])]"
proof -
  have "is_dict_or_list example_heap (PRef 0)"
    by (simp add: example_heap_def cell_def)
  then have "fst (format_payload example_heap (PRef 0) 2 s) = Inr example_text"
    by (simp add: format_payload_apply formatted_eq example_dumps)
  then show ?thesis
    using example_keys example_loads example_view by simp
qed

text \<open>
  C7. For an update whose \<^verbatim>\<open>text\<close> is \<^verbatim>\<open>"done"\<close> and whose \<^verbatim>\<open>status\<close> is
  \<^verbatim>\<open>"completed"\<close>, with \<^verbatim>\<open>error\<close> and \<^verbatim>\<open>artifacts\<close> missing or falsy,
  \<^verbatim>\<open>handle_update\<close> returns, the lines it adds include \<^verbatim>\<open>      done\<close> and
  \<^verbatim>\<open>    STATUS: completed\<close>, and none of them is the header of an error or artifact
  section. The update, its attributes and the identifiers of the context are taken to
  convert to text.
\<close>

theorem handle_update_done_completed:
  assumes "heap_ok H" and "val_ok update" and "attrs_ok update"
    and "renders H context ''session_id''" and "renders H context ''task_id''"
    and "renders H context ''user_id''"
    and "map_of (attrs_of update) ''text'' = Some (PStr ''done'')"
    and "map_of (attrs_of update) ''status'' = Some (PStr ''completed'')"
    and "\<not> attr_truthy H update ''error''"
    and "\<not> attr_truthy H update ''artifacts''"
  shows "fst (handle_update H update context s) = Inr ()
    \<and> info ''      done'' \<in> set (new_records s (snd (handle_update H update context s)))
    \<and> sublist ''done'' ''      done''
    \<and> info ''    STATUS: completed''
        \<in> set (new_records s (snd (handle_update H update context s)))
    \<and> sublist ''completed'' ''    STATUS: completed''
    \<and> list_all (\<lambda>r. \<not> error_header (rec_msg r) \<and> \<not> artifacts_header (rec_msg r))
        (new_records s (snd (handle_update H update context s)))"
proof -
  from renders_text [OF assms(4), of "''N/A''"] renders_text [OF assms(5), of "''N/A''"]
    renders_text [OF assms(6), of "''N/A''"]
  obtain sid tid uid
    where ids: "py_str H (getattr context ''session_id'' (PStr ''N/A'')) = Inr sid"
      "py_str H (getattr context ''task_id'' (PStr ''N/A'')) = Inr tid"
      "py_str H (getattr context ''user_id'' (PStr ''N/A'')) = Inr uid"
    by blast
  let ?head = "[BANNER_START,
        [CHR 0x0A] @ SEPARATOR_THICK,
        ARROW_OUT,
        ''    AGENT MESH RESPONSE/UPDATE RECEIVED'',
        ARROW_OUT,
        SEPARATOR_THIN,
        [CHR 0x0A] @ ''    UPDATE TYPE: '' @ type_name H update,
        [CHR 0x0A] @ ''    RESPONSE CONTEXT:'',
        ''      Session ID: '' @ sid,
        ''      Task ID: '' @ tid,
        ''      User ID: '' @ uid,
        [CHR 0x0A] @ SEPARATOR_THIN,
        ''    UPDATE DETAILS:'']"
  let ?tail = "[[CHR 0x0A] @ SEPARATOR_THIN,
        ''    TEXT CONTENT:'',
        ''      done'',
        [CHR 0x0A] @ SEPARATOR_THIN,
        ''    STATUS: completed'',
        [CHR 0x0A] @ ARROW_OUT,
        SEPARATOR_THICK @ [CHR 0x0A]]"
  obtain s1 where h: "update_head H update context s = (Inr (), s1)"
    and r1: "log_records s1 = log_records s @ map info ?head"
    using update_head_run [OF ids, of update s]
    by (cases "update_head H update context s") auto
  have "total (added no_header s1) (update_dump H update) (\<lambda>_. added no_header s1)"
    by (rule total_update_dump [OF assms(1-3)])
  with added_refl [of no_header s1] obtain s2
    where d: "update_dump H update s1 = (Inr (), s2)" and a: "added no_header s1 s2"
    by (cases "update_dump H update s1") (auto simp: total_def)
  obtain s3 where t: "update_sections H update s2 = (Inr (), s3)"
    and r3: "log_records s3 = log_records s2 @ map info ?tail"
    using update_sections_run [OF assms(7-10), of s2]
    by (cases "update_sections H update s2") auto
  have run: "handle_update H update context s = (Inr (), s3)"
    using h d t by (simp add: handle_update_parts)
  from a have r2: "log_records s2 = log_records s1 @ new_records s1 s2"
    and p2: "list_all (\<lambda>r. no_header (rec_msg r)) (new_records s1 s2)"
    by (simp_all add: added_def)
  have "log_records s3 = log_records s @ (map info ?head @ new_records s1 s2 @ map info ?tail)"
    using r1 r2 r3 by simp
  then have n: "new_records s s3 = map info ?head @ new_records s1 s2 @ map info ?tail"
    by (rule new_records_append)
  have "list_all (\<lambda>r. no_header (rec_msg r)) (new_records s s3)"
    unfolding n using p2 by (simp add: info_def)
  then have "list_all (\<lambda>r. \<not> error_header (rec_msg r) \<and> \<not> artifacts_header (rec_msg r))
        (new_records s s3)"
    by (simp add: no_header_def)
  moreover have "sublist ''done'' ''      done''"
    using sublist_appendI [of "''done''" "''      ''" "[]"] by simp
  moreover have "sublist ''completed'' ''    STATUS: completed''"
    using sublist_appendI [of "''completed''" "''    STATUS: ''" "[]"] by simp
  ultimately show ?thesis
    using run n by simp
qed

theorem handle_update_done_completed_witness:
  "heap_ok [] \<and> val_ok (PObj ''SamUpdate'' True
       [(''text'', PStr ''done''), (''status'', PStr ''completed''), (''error'', PNone)]
       (Inr ''update'') (Inr ''update''))
   \<and> renders [] PNone ''session_id''
   \<and> \<not> attr_truthy [] (PObj ''SamUpdate'' True
       [(''text'', PStr ''done''), (''status'', PStr ''completed''), (''error'', PNone)]
       (Inr ''update'') (Inr ''update'')) ''error''
   \<and> fst (handle_update [] (PObj ''SamUpdate'' True
       [(''text'', PStr ''done''), (''status'', PStr ''completed''), (''error'', PNone)]
       (Inr ''update'') (Inr ''update'')) PNone initial_state) = Inr ()
   \<and> info ''      done'' \<in> set (new_records initial_state (snd (handle_update []
       (PObj ''SamUpdate'' True
          [(''text'', PStr ''done''), (''status'', PStr ''completed''), (''error'', PNone)]
          (Inr ''update'') (Inr ''update'')) PNone initial_state)))
   \<and> info ''    STATUS: completed'' \<in> set (new_records initial_state (snd (handle_update []
       (PObj ''SamUpdate'' True
          [(''text'', PStr ''done''), (''status'', PStr ''completed''), (''error'', PNone)]
          (Inr ''update'') (Inr ''update'')) PNone initial_state)))
   \<and> list_all (\<lambda>r. \<not> error_header (rec_msg r) \<and> \<not> artifacts_header (rec_msg r))
       (new_records initial_state (snd (handle_update []
       (PObj ''SamUpdate'' True
          [(''text'', PStr ''done''), (''status'', PStr ''completed''), (''error'', PNone)]
          (Inr ''update'') (Inr ''update'')) PNone initial_state)))"
proof -
  let ?u = "PObj ''SamUpdate'' True
       [(''text'', PStr ''done''), (''status'', PStr ''completed''), (''error'', PNone)]
       (Inr ''update'') (Inr ''update'')"
  have 1: "heap_ok []" by (simp add: heap_ok_def)
  have 2: "val_ok ?u" by simp
  have 3: "attrs_ok ?u" by (simp add: attrs_ok_def)
  have 4: "renders [] PNone ''session_id''" "renders [] PNone ''task_id''"
    "renders [] PNone ''user_id''"
    by (simp_all add: renders_def getattr_def py_str_def)
  have 5: "map_of (attrs_of ?u) ''text'' = Some (PStr ''done'')"
    "map_of (attrs_of ?u) ''status'' = Some (PStr ''completed'')"
    by simp_all
  have 6: "\<not> attr_truthy [] ?u ''error''" "\<not> attr_truthy [] ?u ''artifacts''"
    by (simp_all add: attr_truthy_def hasattr_def getattr_def)
  from handle_update_done_completed [OF 1 2 3 4 5 6, of initial_state] 1 2 4(1) 6(1)
  show ?thesis by simp
qed

text \<open>
  C8, as stated: two calls with equal value and equal indent return equal strings and
  change no state. With an object of class \<^verbatim>\<open>Ticker\<close>, whose \<^verbatim>\<open>__str__\<close> writes to
  standard output and answers with what it finds there, the first call returns \<^verbatim>\<open>4\<close>
  and leaves \<^verbatim>\<open>tick\<close> in the buffer, and the second call, on the same object with the
  same indent, returns \<^verbatim>\<open>8\<close>.
\<close>

theorem format_payload_runs_user_code:
  "fst (format_payload_with (is_dict_or_list []) (\<lambda>v i. lift (json_dumps [] v i))
          (ticker_str []) (PObj ''Ticker'' True [] (Inr ''t'') (Inr ''t'')) 2 initial_state)
     = Inr ''4''
   \<and> stdout_pending initial_state = []
   \<and> stdout_pending (snd (format_payload_with (is_dict_or_list [])
          (\<lambda>v i. lift (json_dumps [] v i)) (ticker_str [])
          (PObj ''Ticker'' True [] (Inr ''t'') (Inr ''t'')) 2 initial_state)) = ''tick''
   \<and> fst (format_payload_with (is_dict_or_list []) (\<lambda>v i. lift (json_dumps [] v i))
          (ticker_str []) (PObj ''Ticker'' True [] (Inr ''t'') (Inr ''t'')) 2
          (snd (format_payload_with (is_dict_or_list [])
             (\<lambda>v i. lift (json_dumps [] v i)) (ticker_str [])
             (PObj ''Ticker'' True [] (Inr ''t'') (Inr ''t'')) 2 initial_state)))
     = Inr ''8''"
  by (simp add: format_payload_with_def try_except_def ticker_str_def stdout_write_def
      bnd_def initial_state_def show_nat.simps digit_char_def)

text \<open>
  C8, amended: the formatter adds no effect and no dependence on the state of its own.
  When, for the value at hand, \<^verbatim>\<open>str\<close> and \<^verbatim>\<open>json.dumps\<close> (and so the \<^verbatim>\<open>__str__\<close>
  and \<^verbatim>\<open>__repr__\<close> they run) give the same outcome in every state and leave the state as
  it was, so does \<^verbatim>\<open>_format_payload\<close>: any two calls with that value and indent
  return the same string or raise the same exception, and the state is unchanged.
\<close>

theorem format_payload_adds_no_effect:
  assumes "\<forall>s. str_of data s = (r, s)"
    and "\<forall>s. dumps_of data indent s = (j, s)"
  shows "snd (format_payload_with is_dict_or_list_of dumps_of str_of data indent s) = s
    \<and> fst (format_payload_with is_dict_or_list_of dumps_of str_of data indent s)
        = fst (format_payload_with is_dict_or_list_of dumps_of str_of data indent s')"
proof -
  have "format_payload_with is_dict_or_list_of dumps_of str_of data indent w =
      (if is_dict_or_list_of data
       then (case j of Inr t \<Rightarrow> Inr t | Inl e \<Rightarrow> if is_Exception e then r else Inl e)
       else r, w)" for w
    using assms
    by (cases j; cases r) (auto simp: format_payload_with_def try_except_def)
  then show ?thesis by simp
qed

theorem format_payload_adds_no_effect_witness:
  "(\<forall>s. lift (py_str example_heap (PRef 0)) s = (py_str example_heap (PRef 0), s))
   \<and> (\<forall>s. lift (json_dumps example_heap (PRef 0) 2) s = (Inr example_text, s))
   \<and> snd (format_payload example_heap (PRef 0) 2
        (initial_state\<lparr>stdout_pending := ''busy''\<rparr>))
       = initial_state\<lparr>stdout_pending := ''busy''\<rparr>
   \<and> fst (format_payload example_heap (PRef 0) 2
        (initial_state\<lparr>stdout_pending := ''busy''\<rparr>))
       = fst (format_payload example_heap (PRef 0) 2 initial_state)"
proof -
  have a: "\<forall>s. lift (py_str example_heap (PRef 0)) s = (py_str example_heap (PRef 0), s)"
    by simp
  have b: "\<forall>s. lift (json_dumps example_heap (PRef 0) 2) s = (Inr example_text, s)"
    by (simp add: example_dumps)
  from format_payload_adds_no_effect [of "\<lambda>v. lift (py_str example_heap v)" "PRef 0"
      "py_str example_heap (PRef 0)" "\<lambda>v i. lift (json_dumps example_heap v i)" 2
      "Inr example_text" "is_dict_or_list example_heap"
      "initial_state\<lparr>stdout_pending := ''busy''\<rparr>" initial_state, OF a b] a b
  show ?thesis by (simp add: format_payload_def)
qed

text \<open>
  C9. The claim: for every input \<^verbatim>\<open>prepare_task\<close> returns a task with the target agent,
  one text part and the metadata. The code builds it with
  \<^verbatim>\<open>SamTask(target_agent=..., content=[...], metadata={...})\<close>: the keywords
  \<^verbatim>\<open>content\<close> and \<^verbatim>\<open>metadata\<close> name no field of the framework's \<^verbatim>\<open>SamTask\<close> and its
  required field \<^verbatim>\<open>parts\<close> is not given, so the constructor raises
  \<^verbatim>\<open>ValidationError\<close> at line 115. For the input \<^verbatim>\<open>"hello"\<close> that exception is what
  the caller gets, after the request has been logged; and for no input, endpoint context
  or state does the hook return a task.
\<close>

theorem prepare_task_raises_at_SamTask:
  "fst (prepare_task [] (PStr ''hello'') PNone s)
     = Inl (OtherException ''ValidationError'' ''validation error for SamTask'')
   \<and> fst (prepare_task H external_input endpoint_context s') \<noteq> Inr task"
proof
  show "fst (prepare_task [] (PStr ''hello'') PNone s)
     = Inl (OtherException ''ValidationError'' ''validation error for SamTask'')"
    by (simp add: prepare_task_def py_if_def format_payload_apply formatted_eq py_str_def
        log_and_print_apply SamTask_def)
next
  have raises: "fst (bnd A (\<lambda>_. bnd B (\<lambda>t. bnd (lift (SamTask
                 [(''target_agent'', KwText ''OrchestratorAgent''),
                  (''content'', KwParts [create_text_part t]),
                  (''metadata'', KwDict [(''source'', ''logging_webhook_adapter'')])])) (K t)))
            s') \<noteq> Inr task" for A :: "unit io" and B :: "string io" and K
    by (auto simp: bnd_def SamTask_def split: prod.splits sum.splits)
  show "fst (prepare_task H external_input endpoint_context s') \<noteq> Inr task"
    unfolding prepare_task_def by (rule raises)
qed

text \<open>
  C10. A context that lacks \<^verbatim>\<open>gateway_id\<close>, \<^verbatim>\<open>session_id\<close>, \<^verbatim>\<open>task_id\<close> or
  \<^verbatim>\<open>user_id\<close> makes no hook raise: \<^verbatim>\<open>getattr\<close> supplies \<^verbatim>\<open>unknown\<close> or \<^verbatim>\<open>N/A\<close>
  and the line with the placeholder is logged. An identifier that is present is taken to
  convert to text. \<^verbatim>\<open>init\<close> and \<^verbatim>\<open>on_task_complete\<close> then return; \<^verbatim>\<open>on_error\<close>
  returns when \<^verbatim>\<open>str(error)\<close> does; \<^verbatim>\<open>handle_update\<close> logs the placeholders
  whatever the update is, and returns when the update is well-behaved.
\<close>

theorem missing_identifiers_render_placeholders:
  assumes "renders H gateway_context ''gateway_id''"
    and "renders H context ''session_id''"
    and "renders H context ''task_id''"
    and "renders H context ''user_id''"
  shows "fst (init H gateway_context s) = Inr ()
    \<and> (\<not> hasattr gateway_context ''gateway_id'' \<longrightarrow>
          info ''    Gateway ID: unknown''
            \<in> set (new_records s (snd (init H gateway_context s))))
    \<and> fst (on_task_complete H context s) = Inr ()
    \<and> (\<not> hasattr context ''session_id'' \<longrightarrow>
          info ''      Session ID: N/A''
            \<in> set (new_records s (snd (on_task_complete H context s))))
    \<and> (\<not> hasattr context ''task_id'' \<longrightarrow>
          info ''      Task ID: N/A''
            \<in> set (new_records s (snd (on_task_complete H context s))))
    \<and> (\<not> isl (py_str H error) \<longrightarrow>
          fst (on_error H error context s) = Inr ()
          \<and> (truthy H context \<and> \<not> hasattr context ''session_id'' \<longrightarrow>
                err ''    Context Session ID: N/A''
                  \<in> set (new_records s (snd (on_error H error context s))))
          \<and> (truthy H context \<and> \<not> hasattr context ''task_id'' \<longrightarrow>
                err ''    Context Task ID: N/A''
                  \<in> set (new_records s (snd (on_error H error context s)))))
    \<and> (heap_ok H \<and> update_ok H update \<longrightarrow>
          fst (handle_update H update context s) = Inr ())
    \<and> (\<not> hasattr context ''session_id'' \<longrightarrow>
          info ''      Session ID: N/A''
            \<in> set (new_records s (snd (handle_update H update context s))))
    \<and> (\<not> hasattr context ''task_id'' \<longrightarrow>
          info ''      Task ID: N/A''
            \<in> set (new_records s (snd (handle_update H update context s))))
    \<and> (\<not> hasattr context ''user_id'' \<longrightarrow>
          info ''      User ID: N/A''
            \<in> set (new_records s (snd (handle_update H update context s))))"
proof -
  from renders_text [OF assms(1), of "''unknown''"]
  obtain gid where gid: "py_str H (getattr gateway_context ''gateway_id'' (PStr ''unknown''))
      = Inr gid"
    and gid': "\<not> hasattr gateway_context ''gateway_id'' \<longrightarrow> gid = ''unknown''"
    by blast
  from renders_text [OF assms(2), of "''N/A''"]
  obtain sid where sid: "py_str H (getattr context ''session_id'' (PStr ''N/A'')) = Inr sid"
    and sid': "\<not> hasattr context ''session_id'' \<longrightarrow> sid = ''N/A''"
    by blast
  from renders_text [OF assms(3), of "''N/A''"]
  obtain tid where tid: "py_str H (getattr context ''task_id'' (PStr ''N/A'')) = Inr tid"
    and tid': "\<not> hasattr context ''task_id'' \<longrightarrow> tid = ''N/A''"
    by blast
  from renders_text [OF assms(4), of "''N/A''"]
  obtain uid where uid: "py_str H (getattr context ''user_id'' (PStr ''N/A'')) = Inr uid"
    and uid': "\<not> hasattr context ''user_id'' \<longrightarrow> uid = ''N/A''"
    by blast
  have init: "fst (init H gateway_context s) = Inr ()
    \<and> (\<not> hasattr gateway_context ''gateway_id'' \<longrightarrow>
          info ''    Gateway ID: unknown''
            \<in> set (new_records s (snd (init H gateway_context s))))"
    using gid gid'
    by (simp add: init_def set_context_def fmt_def log_and_print_apply new_records_def
        info_def)
  have complete: "fst (on_task_complete H context s) = Inr ()
    \<and> (\<not> hasattr context ''session_id'' \<longrightarrow>
          info ''      Session ID: N/A''
            \<in> set (new_records s (snd (on_task_complete H context s))))
    \<and> (\<not> hasattr context ''task_id'' \<longrightarrow>
          info ''      Task ID: N/A''
            \<in> set (new_records s (snd (on_task_complete H context s))))"
    using sid sid' tid tid'
    by (simp add: on_task_complete_def fmt_def log_and_print_apply new_records_def info_def)
  have error: "fst (on_error H error context s) = Inr ()
          \<and> (truthy H context \<and> \<not> hasattr context ''session_id'' \<longrightarrow>
                err ''    Context Session ID: N/A''
                  \<in> set (new_records s (snd (on_error H error context s))))
          \<and> (truthy H context \<and> \<not> hasattr context ''task_id'' \<longrightarrow>
                err ''    Context Task ID: N/A''
                  \<in> set (new_records s (snd (on_error H error context s))))"
    if "\<not> isl (py_str H error)"
  proof -
    from that obtain msg where "py_str H error = Inr msg"
      by (cases "py_str H error") auto
    with sid sid' tid tid' show ?thesis
      by (simp add: on_error_def py_if_def fmt_def log_and_print_apply logger_call_def
          new_records_def err_def)
  qed
  let ?head = "map info [BANNER_START,
        [CHR 0x0A] @ SEPARATOR_THICK,
        ARROW_OUT,
        ''    AGENT MESH RESPONSE/UPDATE RECEIVED'',
        ARROW_OUT,
        SEPARATOR_THIN,
        [CHR 0x0A] @ ''    UPDATE TYPE: '' @ type_name H update,
        [CHR 0x0A] @ ''    RESPONSE CONTEXT:'',
        ''      Session ID: '' @ sid,
        ''      Task ID: '' @ tid,
        ''      User ID: '' @ uid,
        [CHR 0x0A] @ SEPARATOR_THIN,
        ''    UPDATE DETAILS:'']"
  obtain s1 where h: "update_head H update context s = (Inr (), s1)"
    and r1: "log_records s1 = log_records s @ ?head"
    using update_head_run [OF sid tid uid, of update s]
    by (cases "update_head H update context s") auto
  from handle_update_keeps_head [OF h r1] obtain rest
    where n: "new_records s (snd (handle_update H update context s)) = ?head @ rest"
    by blast
  have update: "(heap_ok H \<and> update_ok H update \<longrightarrow>
          fst (handle_update H update context s) = Inr ())
    \<and> (\<not> hasattr context ''session_id'' \<longrightarrow>
          info ''      Session ID: N/A''
            \<in> set (new_records s (snd (handle_update H update context s))))
    \<and> (\<not> hasattr context ''task_id'' \<longrightarrow>
          info ''      Task ID: N/A''
            \<in> set (new_records s (snd (handle_update H update context s))))
    \<and> (\<not> hasattr context ''user_id'' \<longrightarrow>
          info ''      User ID: N/A''
            \<in> set (new_records s (snd (handle_update H update context s))))"
    using handle_update_returns [OF _ _ h] sid' tid' uid'
    unfolding n by auto
  from init complete error update show ?thesis
    by blast
qed

theorem missing_identifiers_render_placeholders_witness:
  "renders [] (PObj ''GatewayContext'' True [] (Inr ''g'') (Inr ''g'')) ''gateway_id''
   \<and> renders [] (PObj ''ResponseContext'' True [] (Inr ''c'') (Inr ''c'')) ''session_id''
   \<and> \<not> hasattr (PObj ''GatewayContext'' True [] (Inr ''g'') (Inr ''g'')) ''gateway_id''
   \<and> \<not> hasattr (PObj ''ResponseContext'' True [] (Inr ''c'') (Inr ''c'')) ''session_id''
   \<and> truthy [] (PObj ''ResponseContext'' True [] (Inr ''c'') (Inr ''c''))
   \<and> update_ok [] (PObj ''SamUpdate'' True [(''text'', PStr ''hi'')] (Inr ''u'') (Inr ''u''))
   \<and> fst (init [] (PObj ''GatewayContext'' True [] (Inr ''g'') (Inr ''g'')) initial_state)
       = Inr ()
   \<and> info ''    Gateway ID: unknown''
       \<in> set (new_records initial_state
           (snd (init [] (PObj ''GatewayContext'' True [] (Inr ''g'') (Inr ''g''))
              initial_state)))
   \<and> fst (on_task_complete [] (PObj ''ResponseContext'' True [] (Inr ''c'') (Inr ''c''))
        initial_state) = Inr ()
   \<and> info ''      Session ID: N/A''
       \<in> set (new_records initial_state
           (snd (on_task_complete [] (PObj ''ResponseContext'' True [] (Inr ''c'') (Inr ''c''))
              initial_state)))
   \<and> fst (on_error [] (PObj ''KeyError'' True [] (Inr ''k'') (Inr ''k''))
        (PObj ''ResponseContext'' True [] (Inr ''c'') (Inr ''c'')) initial_state) = Inr ()
   \<and> err ''    Context Session ID: N/A''
       \<in> set (new_records initial_state
           (snd (on_error [] (PObj ''KeyError'' True [] (Inr ''k'') (Inr ''k''))
              (PObj ''ResponseContext'' True [] (Inr ''c'') (Inr ''c'')) initial_state)))
   \<and> fst (handle_update []
        (PObj ''SamUpdate'' True [(''text'', PStr ''hi'')] (Inr ''u'') (Inr ''u''))
        (PObj ''ResponseContext'' True [] (Inr ''c'') (Inr ''c'')) initial_state) = Inr ()
   \<and> info ''      User ID: N/A''
       \<in> set (new_records initial_state
           (snd (handle_update []
              (PObj ''SamUpdate'' True [(''text'', PStr ''hi'')] (Inr ''u'') (Inr ''u''))
              (PObj ''ResponseContext'' True [] (Inr ''c'') (Inr ''c'')) initial_state)))"
proof -
  let ?g = "PObj ''GatewayContext'' True [] (Inr ''g'') (Inr ''g'')"
  let ?c = "PObj ''ResponseContext'' True [] (Inr ''c'') (Inr ''c'')"
  let ?e = "PObj ''KeyError'' True [] (Inr ''k'') (Inr ''k'')"
  let ?u = "PObj ''SamUpdate'' True [(''text'', PStr ''hi'')] (Inr ''u'') (Inr ''u'')"
  have r: "renders [] ?g ''gateway_id''" "renders [] ?c ''session_id''"
    "renders [] ?c ''task_id''" "renders [] ?c ''user_id''"
    by (simp_all add: renders_def getattr_def py_str_def)
  have h: "\<not> hasattr ?g ''gateway_id''" "\<not> hasattr ?c ''session_id''"
    "\<not> hasattr ?c ''user_id''"
    by (simp_all add: hasattr_def)
  have t: "truthy [] ?c" by simp
  have e: "\<not> isl (py_str [] ?e)" by (simp add: py_str_def)
  have u: "heap_ok [] \<and> update_ok [] ?u"
    by (simp add: heap_ok_def update_ok_def attrs_ok_def attr_truthy_def hasattr_def)
  from missing_identifiers_render_placeholders [OF r, of initial_state ?e ?u] r(1,2) h t e u
  show ?thesis by simp
qed

end
